theory Spec2Isabelle
  imports Main "HOL-Library.Sublist"
begin

section \<open>Python strings\<close>

text \<open>
  The names the code compares and rewrites (emails, roles, members, resource names) are
  modelled by their UTF-8 bytes, a \<open>string\<close>. The patterns the code searches for
  (\<open>serviceAccount:\<close>, \<open>@\<close>, \<open>.\<close>) are ASCII, so replacing and prefix tests on the bytes
  agree with Python's on the code points. The key payload is the one \<open>str\<close> the code
  encodes; it is modelled by its code points, since \<open>str.encode()\<close> fails on some of them.
\<close>

function replace_nonempty :: "string \<Rightarrow> string \<Rightarrow> string \<Rightarrow> string" where
  "replace_nonempty old new [] = []"
| "replace_nonempty old new (c # cs) =
     (if old \<noteq> [] \<and> prefix old (c # cs)
      then new @ replace_nonempty old new (drop (length old) (c # cs))
      else c # replace_nonempty old new cs)"
  by pat_completeness auto
termination
  by (relation "measure (\<lambda>(old, new, s). length s)") auto

definition str_replace :: "string \<Rightarrow> string \<Rightarrow> string \<Rightarrow> string" where
  \<comment> \<open>\<open>s.replace(old, new)\<close>: every occurrence, leftmost first, without overlap; an empty
      \<open>old\<close> matches before every character and at the end.\<close>
  "str_replace s old new =
     (if old = [] then new @ concat (map (\<lambda>c. c # new) s) else replace_nonempty old new s)"

definition startswith :: "string \<Rightarrow> string \<Rightarrow> bool" where
  "startswith s p = prefix p s"

section \<open>The remote services\<close>

text \<open>
  The three clients held by \<open>CloudSentinel\<close> (service usage, IAM, secret manager) are
  libraries outside the repository. They are modelled as one record: what the provider
  stores, which calls it refuses (a fault per request, raised as an exception), and the
  log of the requests it has received. Requests to the service-usage and IAM clients
  fail with API errors; a request to the secret store may be left by any exception, so
  that what \<open>_store_key_in_secret_manager\<close> catches and what it lets through are both
  in the model.
\<close>

subsection \<open>Exceptions\<close>

datatype exn =
    NotFound string
  | PermissionDenied string
  | AlreadyExists string
  | GoogleCloudError string
  | CloudSentinelError string

fun str :: "exn \<Rightarrow> string" where
  "str (NotFound m) = m"
| "str (PermissionDenied m) = m"
| "str (AlreadyExists m) = m"
| "str (GoogleCloudError m) = m"
| "str (CloudSentinelError m) = m"

fun is_NotFound :: "exn \<Rightarrow> bool" where
  "is_NotFound (NotFound m) = True"
| "is_NotFound e = False"

fun is_AlreadyExists :: "exn \<Rightarrow> bool" where
  "is_AlreadyExists (AlreadyExists m) = True"
| "is_AlreadyExists e = False"

text \<open>
  \<open>exn\<close> are the errors of the API (all derived from \<open>Exception\<close>, all with a message).
  \<open>raised\<close> is any Python exception: an API error, the error of \<open>str.encode()\<close>, an
  exception derived from \<open>Exception\<close> whose \<open>__str__\<close> raises in turn, and the
  exceptions that are not derived from \<open>Exception\<close>.
\<close>

datatype raised =
    ApiError exn
  | UnicodeEncodeError string
  | Unprintable raised
  | KeyboardInterrupt
  | SystemExit
  | GeneratorExit

fun is_Exception :: "raised \<Rightarrow> bool" where
  \<comment> \<open>\<open>isinstance(e, Exception)\<close>: what \<open>except Exception\<close> catches\<close>
  "is_Exception (ApiError x) = True"
| "is_Exception (UnicodeEncodeError m) = True"
| "is_Exception (Unprintable x) = True"
| "is_Exception KeyboardInterrupt = False"
| "is_Exception SystemExit = False"
| "is_Exception GeneratorExit = False"

fun str_of :: "raised \<Rightarrow> raised + string" where
  \<comment> \<open>\<open>str(e)\<close>, which runs the exception's own \<open>__str__\<close>\<close>
  "str_of (ApiError x) = Inr (str x)"
| "str_of (UnicodeEncodeError m) = Inr m"
| "str_of (Unprintable x) = Inl x"
| "str_of KeyboardInterrupt = Inr ''''"
| "str_of SystemExit = Inr ''''"
| "str_of GeneratorExit = Inr ''''"

fun is_AlreadyExists_raised :: "raised \<Rightarrow> bool" where
  \<comment> \<open>\<open>except api_exceptions.AlreadyExists\<close>\<close>
  "is_AlreadyExists_raised (ApiError x) = is_AlreadyExists x"
| "is_AlreadyExists_raised e = False"

definition is_surrogate :: "nat \<Rightarrow> bool" where
  "is_surrogate cp = (55296 \<le> cp \<and> cp \<le> 57343)"

definition utf8 :: "nat \<Rightarrow> nat list" where
  \<comment> \<open>the bytes of one code point (a code point of a \<open>str\<close> is below 1114112)\<close>
  "utf8 cp =
     (if cp < 128 then [cp]
      else if cp < 2048 then [192 + cp div 64, 128 + cp mod 64]
      else if cp < 65536 then [224 + cp div 4096, 128 + (cp div 64) mod 64, 128 + cp mod 64]
      else [240 + cp div 262144, 128 + (cp div 4096) mod 64, 128 + (cp div 64) mod 64,
            128 + cp mod 64])"

definition encode :: "nat list \<Rightarrow> raised + nat list" where
  \<comment> \<open>\<open>s.encode()\<close>: UTF-8, strict; a surrogate code point cannot be encoded\<close>
  "encode s =
     (if list_ex is_surrogate s then Inl (UnicodeEncodeError ''surrogates not allowed'')
      else Inr (concat (map utf8 s)))"

subsection \<open>The provider's state and requests\<close>

datatype service_state = STATE_UNSPECIFIED | DISABLED | ENABLED

record binding =
  role :: string
  members :: "string list"

type_synonym policy = "binding list"

datatype call =
    GetService string
  | EnableService string
  | OperationResult string nat
  | GetIamPolicy string
  | SetIamPolicy string policy
  | CreateSecret string string
  | AddSecretVersion string "nat list"

record cloud =
  services :: "string \<Rightarrow> service_state option"
  get_service_fault :: "string \<Rightarrow> exn option"
  enable_service_fault :: "string \<Rightarrow> exn option"
  operation_fault :: "string \<Rightarrow> exn option"
  iam_policies :: "string \<Rightarrow> policy"
  get_iam_policy_fault :: "string \<Rightarrow> exn option"
  set_iam_policy_fault :: "string \<Rightarrow> exn option"
  secrets :: "string \<Rightarrow> nat list list option"
  create_secret_fault :: "string \<Rightarrow> raised option"
  add_secret_version_fault :: "string \<Rightarrow> raised option"
  calls :: "call list"

definition request :: "call \<Rightarrow> cloud \<Rightarrow> cloud" where
  "request r c = c\<lparr>calls := calls c @ [r]\<rparr>"

definition get_service :: "string \<Rightarrow> cloud \<Rightarrow> (exn + service_state) \<times> cloud" where
  "get_service name c =
     (let c1 = request (GetService name) c in
      case get_service_fault c name of
        Some e \<Rightarrow> (Inl e, c1)
      | None \<Rightarrow>
          (case services c name of
             None \<Rightarrow> (Inl (NotFound name), c1)
           | Some st \<Rightarrow> (Inr st, c1)))"

definition enable_service :: "string \<Rightarrow> cloud \<Rightarrow> (exn + string) \<times> cloud" where
  \<comment> \<open>returns the long-running operation, named by the service it enables\<close>
  "enable_service name c =
     (let c1 = request (EnableService name) c in
      case enable_service_fault c name of
        Some e \<Rightarrow> (Inl e, c1)
      | None \<Rightarrow> (Inr name, c1))"

definition operation_result :: "string \<Rightarrow> nat \<Rightarrow> cloud \<Rightarrow> (exn + unit) \<times> cloud" where
  \<comment> \<open>\<open>operation.result(timeout)\<close>: a timeout or a failed operation is a fault\<close>
  "operation_result name timeout c =
     (let c1 = request (OperationResult name timeout) c in
      case operation_fault c name of
        Some e \<Rightarrow> (Inl e, c1)
      | None \<Rightarrow> (Inr (), c1\<lparr>services := (services c1)(name \<mapsto> ENABLED)\<rparr>))"

definition get_iam_policy :: "string \<Rightarrow> cloud \<Rightarrow> (exn + policy) \<times> cloud" where
  "get_iam_policy resource c =
     (let c1 = request (GetIamPolicy resource) c in
      case get_iam_policy_fault c resource of
        Some e \<Rightarrow> (Inl e, c1)
      | None \<Rightarrow> (Inr (iam_policies c resource), c1))"

definition set_iam_policy :: "string \<Rightarrow> policy \<Rightarrow> cloud \<Rightarrow> (exn + unit) \<times> cloud" where
  "set_iam_policy resource p c =
     (let c1 = request (SetIamPolicy resource p) c in
      case set_iam_policy_fault c resource of
        Some e \<Rightarrow> (Inl e, c1)
      | None \<Rightarrow> (Inr (), c1\<lparr>iam_policies := (iam_policies c1)(resource := p)\<rparr>))"

definition create_secret :: "string \<Rightarrow> string \<Rightarrow> cloud \<Rightarrow> (raised + unit) \<times> cloud" where
  "create_secret parent secret_id c =
     (let c1 = request (CreateSecret parent secret_id) c;
          path = parent @ ''/secrets/'' @ secret_id in
      case create_secret_fault c path of
        Some e \<Rightarrow> (Inl e, c1)
      | None \<Rightarrow>
          (case secrets c path of
             Some vs \<Rightarrow> (Inl (ApiError (AlreadyExists path)), c1)
           | None \<Rightarrow> (Inr (), c1\<lparr>secrets := (secrets c1)(path \<mapsto> [])\<rparr>)))"

definition add_secret_version ::
  "string \<Rightarrow> nat list \<Rightarrow> cloud \<Rightarrow> (raised + unit) \<times> cloud" where
  "add_secret_version path payload c =
     (let c1 = request (AddSecretVersion path payload) c in
      case add_secret_version_fault c path of
        Some e \<Rightarrow> (Inl e, c1)
      | None \<Rightarrow>
          (case secrets c path of
             None \<Rightarrow> (Inl (ApiError (NotFound path)), c1)
           | Some vs \<Rightarrow> (Inr (), c1\<lparr>secrets := (secrets c1)(path \<mapsto> vs @ [payload])\<rparr>)))"

section \<open>CloudSentinel\<close>

record sentinel =
  project_id :: string
  location :: string
  required_apis :: "string list"
  critical_roles :: "string list"

definition init :: "bool \<Rightarrow> string \<Rightarrow> string \<Rightarrow> exn + sentinel" where
  \<comment> \<open>\<open>CloudSentinel.__init__\<close>; the first argument is \<open>GCP_AVAILABLE\<close>\<close>
  "init gcp_available pid loc =
     (if \<not> gcp_available
      then Inl (CloudSentinelError
        (''Google Cloud libraries are not available. Please install them using: '' @
         ''pip install google-cloud-service-usage google-cloud-iam google-cloud-secret-manager''))
      else Inr \<lparr>project_id = pid, location = loc,
        required_apis =
          [''serviceusage.googleapis.com'',
           ''iam.googleapis.com'',
           ''secretmanager.googleapis.com'',
           ''cloudbuild.googleapis.com'',
           ''cloudresourcemanager.googleapis.com'',
           ''logging.googleapis.com'',
           ''monitoring.googleapis.com''],
        critical_roles =
          [''roles/secretmanager.secretAccessor'',
           ''roles/secretmanager.secretVersionManager'',
           ''roles/cloudbuild.builds.builder'',
           ''roles/logging.logWriter'',
           ''roles/monitoring.metricWriter'']\<rparr>)"

subsection \<open>ensure_api\<close>

definition enable_and_wait :: "string \<Rightarrow> cloud \<Rightarrow> bool \<times> cloud" where
  \<comment> \<open>the tail of \<open>ensure_api\<close>: \<open>enable_service\<close>, then \<open>operation.result(timeout=300)\<close>\<close>
  "enable_and_wait service_name c =
     (case enable_service service_name c of
        (Inl e, c1) \<Rightarrow> (False, c1)
      | (Inr operation, c1) \<Rightarrow>
          (case operation_result operation 300 c1 of
             (Inl e, c2) \<Rightarrow> (False, c2)
           | (Inr u, c2) \<Rightarrow> (True, c2)))"

definition ensure_api :: "sentinel \<Rightarrow> string \<Rightarrow> cloud \<Rightarrow> bool \<times> cloud" where
  "ensure_api self name c =
     (let service_name = ''projects/'' @ project_id self @ ''/services/'' @ name in
      case get_service service_name c of
        (Inr state, c1) \<Rightarrow>
          if state = ENABLED then (True, c1) else enable_and_wait service_name c1
      | (Inl e, c1) \<Rightarrow>
          if is_NotFound e then enable_and_wait service_name c1 else (False, c1))"

fun ensure_apis_loop ::
  "sentinel \<Rightarrow> string list \<Rightarrow> string list \<Rightarrow> string list \<Rightarrow> cloud
    \<Rightarrow> (string list \<times> string list) \<times> cloud" where
  "ensure_apis_loop self [] enabled failed c = ((enabled, failed), c)"
| "ensure_apis_loop self (api # apis) enabled failed c =
     (case ensure_api self api c of
        (True, c1) \<Rightarrow> ensure_apis_loop self apis (enabled @ [api]) failed c1
      | (False, c1) \<Rightarrow> ensure_apis_loop self apis enabled (failed @ [api]) c1)"

definition ensure_required_apis ::
  "sentinel \<Rightarrow> cloud \<Rightarrow> (string list \<times> string list) \<times> cloud" where
  "ensure_required_apis self c = ensure_apis_loop self (required_apis self) [] [] c"

subsection \<open>ensure_role\<close>

fun already_assigned :: "string \<Rightarrow> string \<Rightarrow> policy \<Rightarrow> bool" where
  \<comment> \<open>the first loop over \<open>policy.bindings\<close>, which returns at the first match\<close>
  "already_assigned r member [] = False"
| "already_assigned r member (b # bs) =
     (if role b = r \<and> member \<in> set (members b) then True else already_assigned r member bs)"

fun append_member :: "string \<Rightarrow> string \<Rightarrow> policy \<Rightarrow> policy \<times> bool" where
  \<comment> \<open>the second loop: the first binding of the role gets the member, then \<open>break\<close>;
      the flag is \<open>role_exists\<close>\<close>
  "append_member r member [] = ([], False)"
| "append_member r member (b # bs) =
     (if role b = r then (b\<lparr>members := members b @ [member]\<rparr> # bs, True)
      else (case append_member r member bs of (bs', found) \<Rightarrow> (b # bs', found)))"

definition ensure_role :: "sentinel \<Rightarrow> string \<Rightarrow> string \<Rightarrow> cloud \<Rightarrow> bool \<times> cloud" where
  "ensure_role self sa_email r c =
     (let resource = ''projects/'' @ project_id self in
      case get_iam_policy resource c of
        (Inl e, c1) \<Rightarrow> (False, c1)
      | (Inr policy, c1) \<Rightarrow>
          (let member = ''serviceAccount:'' @ sa_email in
           if already_assigned r member policy then (True, c1)
           else
             (let new_binding = \<lparr>role = r, members = [member]\<rparr> in
              case append_member r member policy of
                (bindings, role_exists) \<Rightarrow>
                  (let policy' = (if \<not> role_exists then bindings @ [new_binding] else bindings) in
                   case set_iam_policy resource policy' c1 of
                     (Inl e, c2) \<Rightarrow> (False, c2)
                   | (Inr u, c2) \<Rightarrow> (True, c2)))))"

subsection \<open>IAM validation\<close>

fun has_role :: "string \<Rightarrow> string \<Rightarrow> policy \<Rightarrow> bool" where
  "has_role sa_email r [] = False"
| "has_role sa_email r (b # bs) =
     (if role b = r \<and> (''serviceAccount:'' @ sa_email) \<in> set (members b) then True
      else has_role sa_email r bs)"

fun scan_members :: "string list \<Rightarrow> string list \<Rightarrow> string list" where
  \<comment> \<open>the inner loop filling the set \<open>service_accounts\<close>, kept here as a list without
      repetition in the order of first insertion\<close>
  "scan_members [] sas = sas"
| "scan_members (member # ms) sas =
     (if startswith member ''serviceAccount:''
      then (let sa_email = str_replace member ''serviceAccount:'' '''' in
            scan_members ms (if sa_email \<in> set sas then sas else sas @ [sa_email]))
      else scan_members ms sas)"

fun scan_bindings :: "policy \<Rightarrow> string list \<Rightarrow> string list" where
  "scan_bindings [] sas = sas"
| "scan_bindings (b # bs) sas = scan_bindings bs (scan_members (members b) sas)"

fun check_roles ::
  "string \<Rightarrow> string list \<Rightarrow> policy \<Rightarrow> string list \<times> string list \<Rightarrow> string list \<times> string list"
where
  "check_roles sa_email [] p (valid, missing) = (valid, missing)"
| "check_roles sa_email (r # rs) p (valid, missing) =
     (if has_role sa_email r p
      then check_roles sa_email rs p (valid @ [sa_email @ '':'' @ r], missing)
      else check_roles sa_email rs p (valid, missing @ [sa_email @ '':'' @ r]))"

fun check_accounts ::
  "string list \<Rightarrow> string list \<Rightarrow> policy \<Rightarrow> string list \<times> string list \<Rightarrow> string list \<times> string list"
where
  "check_accounts [] roles p acc = acc"
| "check_accounts (sa_email # sas) roles p acc =
     check_accounts sas roles p (check_roles sa_email roles p acc)"

definition validate_iam_permissions ::
  "sentinel \<Rightarrow> (string list \<Rightarrow> string list) \<Rightarrow> cloud \<Rightarrow> (string list \<times> string list) \<times> cloud"
where
  \<comment> \<open>\<open>iter\<close> is the order in which Python iterates over the set \<open>service_accounts\<close>:
      the language leaves it open, so it is a parameter (some rearrangement of the
      elements)\<close>
  "validate_iam_permissions self iter c =
     (let resource = ''projects/'' @ project_id self in
      case get_iam_policy resource c of
        (Inl e, c1) \<Rightarrow> (([], [''validation_error: '' @ str e]), c1)
      | (Inr policy, c1) \<Rightarrow>
          (let service_accounts = scan_bindings policy [] in
           (check_accounts (iter service_accounts) (critical_roles self) policy ([], []), c1)))"

subsection \<open>Key rotation and the secret store\<close>

definition rotate_service_account_keys :: "sentinel \<Rightarrow> string list \<times> string list" where
  "rotate_service_account_keys self =
     (let rotated = []; failed = []; resource = ''projects/'' @ project_id self in
      (rotated, failed))"

definition store_failed :: "raised \<Rightarrow> cloud \<Rightarrow> (raised + bool) \<times> cloud" where
  \<comment> \<open>the outer \<open>except Exception as e\<close> of \<open>_store_key_in_secret_manager\<close>: an exception
      of another kind goes on to the caller, and so does what \<open>str(e)\<close> raises while the
      message for the log is built\<close>
  "store_failed e c =
     (if is_Exception e
      then (case str_of e of Inl x \<Rightarrow> (Inl x, c) | Inr msg \<Rightarrow> (Inr False, c))
      else (Inl e, c))"

definition add_version ::
  "sentinel \<Rightarrow> string \<Rightarrow> nat list \<Rightarrow> cloud \<Rightarrow> (raised + bool) \<times> cloud" where
  \<comment> \<open>the tail of \<open>_store_key_in_secret_manager\<close>, after the secret exists; the payload
      is encoded before the request is made\<close>
  "add_version self secret_id key_data c =
     (let secret_path = ''projects/'' @ project_id self @ ''/secrets/'' @ secret_id in
      case encode key_data of
        Inl e \<Rightarrow> store_failed e c
      | Inr payload \<Rightarrow>
          (case add_secret_version secret_path payload c of
             (Inl e, c1) \<Rightarrow> store_failed e c1
           | (Inr u, c1) \<Rightarrow> (Inr True, c1)))"

definition secret_id_of :: "string \<Rightarrow> string" where
  "secret_id_of sa_email =
     ''sa-key-'' @ str_replace (str_replace sa_email ''@'' ''-'') ''.'' ''-''"

definition store_key_in_secret_manager ::
  "sentinel \<Rightarrow> string \<Rightarrow> nat list \<Rightarrow> cloud \<Rightarrow> (raised + bool) \<times> cloud" where
  \<comment> \<open>\<open>Inl\<close>: the call raises; \<open>Inr\<close>: it returns the boolean\<close>
  "store_key_in_secret_manager self sa_email key_data c =
     (let secret_id = secret_id_of sa_email;
          parent = ''projects/'' @ project_id self in
      case create_secret parent secret_id c of
        (Inr u, c1) \<Rightarrow> add_version self secret_id key_data c1
      | (Inl e, c1) \<Rightarrow>
          if is_AlreadyExists_raised e then add_version self secret_id key_data c1
          else store_failed e c1)"

subsection \<open>ensure_environment\<close>

record report =
  apis_enabled :: "string list"
  apis_failed :: "string list"
  permissions_valid :: "string list"
  permissions_missing :: "string list"
  keys_rotated :: "string list"
  keys_failed :: "string list"
  timestamp :: string
  overall_status :: string
  error :: "string option"

type_synonym pass = "cloud \<Rightarrow> (raised + string list \<times> string list) \<times> cloud"

definition on_exception :: "report \<Rightarrow> raised \<Rightarrow> raised + report" where
  \<comment> \<open>the \<open>except Exception as e\<close> branch: an exception of another kind goes on to the
      caller (\<open>Inl\<close>), and so does what \<open>str(e)\<close> raises, which is first called for the log\<close>
  "on_exception results e =
     (if is_Exception e
      then (case str_of e of
              Inl x \<Rightarrow> Inl x
            | Inr msg \<Rightarrow> Inr (results\<lparr>overall_status := ''error'', error := Some msg\<rparr>))
      else Inl e)"

definition initial_results :: "string \<Rightarrow> report" where
  \<comment> \<open>the dictionary \<open>results\<close> as first built; the key \<open>error\<close> is absent\<close>
  "initial_results now =
     \<lparr>apis_enabled = [], apis_failed = [], permissions_valid = [],
      permissions_missing = [], keys_rotated = [], keys_failed = [],
      timestamp = now, overall_status = ''unknown'', error = None\<rparr>"

definition run_passes ::
  "pass \<Rightarrow> pass \<Rightarrow> pass \<Rightarrow> string \<Rightarrow> cloud \<Rightarrow> (raised + report) \<times> cloud" where
  \<comment> \<open>the body of \<open>ensure_environment\<close> over any three sub-passes (the methods are looked
      up on \<open>self\<close> at the call); a sub-pass either raises (\<open>Inl\<close>) or returns its two
      lists, and the run either raises (\<open>Inl\<close>) or returns the report.
      \<open>now\<close> is \<open>datetime.utcnow().isoformat()\<close>.\<close>
  "run_passes apis_pass iam_pass keys_pass now c =
     (let results = initial_results now in
      case apis_pass c of
        (Inl e, c1) \<Rightarrow> (on_exception results e, c1)
      | (Inr (enabled, failed), c1) \<Rightarrow>
          (let results = results\<lparr>apis_enabled := enabled, apis_failed := failed\<rparr> in
           case iam_pass c1 of
             (Inl e, c2) \<Rightarrow> (on_exception results e, c2)
           | (Inr (valid, missing), c2) \<Rightarrow>
               (let results = results\<lparr>permissions_valid := valid,
                      permissions_missing := missing\<rparr> in
                case keys_pass c2 of
                  (Inl e, c3) \<Rightarrow> (on_exception results e, c3)
                | (Inr (rotated, kfailed), c3) \<Rightarrow>
                    (let results = results\<lparr>keys_rotated := rotated, keys_failed := kfailed\<rparr> in
                     (Inr (if apis_failed results \<noteq> [] \<or> permissions_missing results \<noteq> []
                              \<or> keys_failed results \<noteq> []
                           then results\<lparr>overall_status := ''issues_found''\<rparr>
                           else results\<lparr>overall_status := ''healthy''\<rparr>), c3)))))"

definition escapes :: "pass \<Rightarrow> pass \<Rightarrow> pass \<Rightarrow> cloud \<Rightarrow> bool" where
  \<comment> \<open>some sub-pass of the run raises (the later ones are then not called)\<close>
  "escapes apis_pass iam_pass keys_pass c =
     (case apis_pass c of
        (Inl e, c1) \<Rightarrow> True
      | (Inr x, c1) \<Rightarrow>
          (case iam_pass c1 of
             (Inl e, c2) \<Rightarrow> True
           | (Inr y, c2) \<Rightarrow>
               (case keys_pass c2 of
                  (Inl e, c3) \<Rightarrow> True
                | (Inr z, c3) \<Rightarrow> False)))"

definition returns :: "(cloud \<Rightarrow> (string list \<times> string list) \<times> cloud) \<Rightarrow> pass" where
  \<comment> \<open>a sub-pass that does not raise\<close>
  "returns f c = (case f c of (r, c1) \<Rightarrow> (Inr r, c1))"

definition ensure_environment ::
  "sentinel \<Rightarrow> (string list \<Rightarrow> string list) \<Rightarrow> string \<Rightarrow> cloud
    \<Rightarrow> (raised + report) \<times> cloud" where
  "ensure_environment self iter now c =
     run_passes
       (returns (ensure_required_apis self))
       (returns (validate_iam_permissions self iter))
       (returns (\<lambda>c. (rotate_service_account_keys self, c)))
       now c"

section \<open>Example configurations\<close>

text \<open>
  A provider with nothing in it and no faults, a facade with short names for its APIs and
  critical roles, and the policy of the validation scenario: \<open>svcA\<close> holds \<open>R1\<close> only,
  \<open>svcB\<close> holds neither critical role.
\<close>

definition empty_cloud :: cloud where
  "empty_cloud =
     \<lparr>services = Map.empty, get_service_fault = (\<lambda>n. None),
      enable_service_fault = (\<lambda>n. None), operation_fault = (\<lambda>n. None),
      iam_policies = (\<lambda>r. []), get_iam_policy_fault = (\<lambda>r. None),
      set_iam_policy_fault = (\<lambda>r. None), secrets = Map.empty,
      create_secret_fault = (\<lambda>p. None), add_secret_version_fault = (\<lambda>p. None),
      calls = []\<rparr>"

definition demo :: sentinel where
  "demo = \<lparr>project_id = ''p'', location = ''global'',
            required_apis = [''A'', ''B'', ''C''], critical_roles = [''R1'', ''R2'']\<rparr>"

definition scenario_policy :: policy where
  "scenario_policy =
     [\<lparr>role = ''R1'', members = [''serviceAccount:svcA'']\<rparr>,
      \<lparr>role = ''R3'', members = [''serviceAccount:svcB'', ''user:carol'']\<rparr>]"

definition scenario_cloud :: cloud where
  "scenario_cloud = empty_cloud\<lparr>iam_policies := (\<lambda>r. scenario_policy)\<rparr>"

definition enabled_cloud :: cloud where
  "enabled_cloud =
     empty_cloud\<lparr>services := [''projects/p/services/A'' \<mapsto> ENABLED,
                                 ''projects/p/services/B'' \<mapsto> ENABLED]\<rparr>"

definition denied_cloud :: cloud where
  "denied_cloud =
     scenario_cloud\<lparr>get_iam_policy_fault := (\<lambda>r. Some (PermissionDenied ''403 denied''))\<rparr>"

definition sealed_cloud :: cloud where
  "sealed_cloud =
     empty_cloud\<lparr>create_secret_fault := (\<lambda>p. Some (ApiError (PermissionDenied ''403'')))\<rparr>"

definition stocked_cloud :: cloud where
  "stocked_cloud =
     empty_cloud\<lparr>secrets := [''projects/p/secrets/sa-key-a-b-c'' \<mapsto> [[79, 76, 68]]]\<rparr>"

definition interrupted_cloud :: cloud where
  "interrupted_cloud = empty_cloud\<lparr>create_secret_fault := (\<lambda>p. Some KeyboardInterrupt)\<rparr>"

definition key_text :: "nat list" where
  \<comment> \<open>the text \<open>KEY\<close>\<close>
  "key_text = [75, 69, 89]"

definition broken_text :: "nat list" where
  \<comment> \<open>\<open>K\<close> followed by the lone surrogate U+D800\<close>
  "broken_text = [75, 55296]"

definition users_policy :: policy where
  "users_policy = [\<lparr>role = ''R1'', members = [''user:carol'', ''dave@example.com'']\<rparr>]"

definition users_cloud :: cloud where
  "users_cloud = empty_cloud\<lparr>iam_policies := (\<lambda>r. users_policy)\<rparr>"

definition raising :: "string \<Rightarrow> pass" where
  "raising msg c = (Inl (ApiError (GoogleCloudError msg)), c)"

definition interrupted :: pass where
  "interrupted c = (Inl KeyboardInterrupt, c)"

definition returning :: "string list \<Rightarrow> string list \<Rightarrow> pass" where
  "returning xs ys c = (Inr (xs, ys), c)"

definition sample_run :: "raised + report" where
  "sample_run =
     fst (run_passes (returning [''A''] []) (returning [''svcA:R1''] [])
            (returning [''key-1''] []) ''2024-01-01T00:00:00'' empty_cloud)"

definition sample_report :: report where
  "sample_report =
     (initial_results ''2024-01-01T00:00:00'')
       \<lparr>apis_enabled := [''A''], permissions_valid := [''svcA:R1''],
        keys_rotated := [''key-1''], overall_status := ''healthy''\<rparr>"

section \<open>Auxiliary facts\<close>

lemma already_assigned_iff:
  "already_assigned r m p \<longleftrightarrow> (\<exists>b\<in>set p. role b = r \<and> m \<in> set (members b))"
  by (induction p) auto

lemma has_role_iff:
  "has_role e r p \<longleftrightarrow> (\<exists>b\<in>set p. role b = r \<and> (''serviceAccount:'' @ e) \<in> set (members b))"
  by (induction p) auto

lemma append_member_absent:
  "\<forall>b\<in>set p. role b \<noteq> r \<Longrightarrow> append_member r m p = (p, False)"
  by (induction p) auto

lemma append_member_present:
  "\<exists>b\<in>set p. role b = r \<Longrightarrow>
     \<exists>pre b post. p = pre @ b # post \<and> (\<forall>x\<in>set pre. role x \<noteq> r) \<and> role b = r \<and>
       append_member r m p = (pre @ b\<lparr>members := members b @ [m]\<rparr> # post, True)"
proof (induction p)
  case Nil
  then show ?case by simp
next
  case (Cons a p)
  show ?case
  proof (cases "role a = r")
    case True
    then have "a # p = [] @ a # p \<and> (\<forall>x\<in>set []. role x \<noteq> r) \<and> role a = r \<and>
       append_member r m (a # p) = ([] @ a\<lparr>members := members a @ [m]\<rparr> # p, True)"
      by simp
    then show ?thesis by blast
  next
    case False
    with Cons.prems have "\<exists>b\<in>set p. role b = r" by auto
    from Cons.IH [OF this] obtain pre b post where
      h: "p = pre @ b # post" "\<forall>x\<in>set pre. role x \<noteq> r" "role b = r"
         "append_member r m p = (pre @ b\<lparr>members := members b @ [m]\<rparr> # post, True)"
      by blast
    from h False have "a # p = (a # pre) @ b # post \<and> (\<forall>x\<in>set (a # pre). role x \<noteq> r) \<and> role b = r \<and>
       append_member r m (a # p) = ((a # pre) @ b\<lparr>members := members b @ [m]\<rparr> # post, True)"
      by simp
    then show ?thesis by blast
  qed
qed

lemma ensure_role_satisfied:
  assumes "res = ''projects/'' @ project_id self" "m = ''serviceAccount:'' @ e"
    and "get_iam_policy_fault c res = None"
    and "already_assigned r m (iam_policies c res)"
  shows "ensure_role self e r c = (True, c\<lparr>calls := calls c @ [GetIamPolicy res]\<rparr>)"
  using assms by (simp add: ensure_role_def get_iam_policy_def request_def)

lemma ensure_role_unsatisfied:
  assumes "res = ''projects/'' @ project_id self" "m = ''serviceAccount:'' @ e"
    and "get_iam_policy_fault c res = None"
    and "\<not> already_assigned r m (iam_policies c res)"
    and "append_member r m (iam_policies c res) = (bs, found)"
    and "p' = (if found then bs else bs @ [\<lparr>role = r, members = [m]\<rparr>])"
  shows "ensure_role self e r c =
     (case set_iam_policy_fault c res of
        Some x \<Rightarrow> (False, c\<lparr>calls := calls c @ [GetIamPolicy res, SetIamPolicy res p']\<rparr>)
      | None \<Rightarrow> (True, c\<lparr>calls := calls c @ [GetIamPolicy res, SetIamPolicy res p'],
                     iam_policies := (iam_policies c)(res := p')\<rparr>))"
  using assms
  by (simp add: ensure_role_def get_iam_policy_def set_iam_policy_def request_def Let_def
        split: option.splits)

lemma get_iam_policy_ok:
  "fst (get_iam_policy res c) = Inr policy \<longleftrightarrow>
     get_iam_policy_fault c res = None \<and> iam_policies c res = policy"
  by (auto simp: get_iam_policy_def Let_def split: option.splits)

lemma get_iam_policy_raises:
  "fst (get_iam_policy res c) = Inl e \<longleftrightarrow> get_iam_policy_fault c res = Some e"
  by (auto simp: get_iam_policy_def Let_def split: option.splits)

lemma ensure_role_grants_aux:
  assumes res: "res = ''projects/'' @ project_id self" and m: "m = ''serviceAccount:'' @ p"
    and f: "get_iam_policy_fault c res = None" and pol: "iam_policies c res = policy"
    and na: "\<not> (\<exists>b\<in>set policy. role b = r \<and> m \<in> set (members b))"
  shows "\<exists>policy'.
      calls (snd (ensure_role self p r c)) =
        calls c @ [GetIamPolicy res, SetIamPolicy res policy']
    \<and> (fst (ensure_role self p r c) \<longleftrightarrow> set_iam_policy_fault c res = None)
    \<and> (set_iam_policy_fault c res = None \<longrightarrow>
           iam_policies (snd (ensure_role self p r c)) res = policy')
    \<and> ((\<exists>b\<in>set policy. role b = r) \<longrightarrow>
           (\<exists>pre b post. policy = pre @ b # post \<and> (\<forall>x\<in>set pre. role x \<noteq> r) \<and> role b = r
              \<and> policy' = pre @ b\<lparr>members := members b @ [m]\<rparr> # post)
           \<and> map role policy' = map role policy)
    \<and> ((\<forall>b\<in>set policy. role b \<noteq> r) \<longrightarrow>
           policy' = policy @ [\<lparr>role = r, members = [m]\<rparr>])"
proof -
  from na pol have na': "\<not> already_assigned r m (iam_policies c res)"
    by (simp only: already_assigned_iff) simp
  show ?thesis
  proof (cases "\<exists>b\<in>set policy. role b = r")
    case True
    from append_member_present [OF True, of m] obtain pre b post where
      h: "policy = pre @ b # post" "\<forall>x\<in>set pre. role x \<noteq> r" "role b = r"
         "append_member r m policy = (pre @ b\<lparr>members := members b @ [m]\<rparr> # post, True)"
      by blast
    define q where "q = pre @ b\<lparr>members := members b @ [m]\<rparr> # post"
    from h(4) pol have am: "append_member r m (iam_policies c res) = (q, True)"
      by (simp add: q_def)
    have q: "q = (if True then q else q @ [\<lparr>role = r, members = [m]\<rparr>])" by simp
    note e = ensure_role_unsatisfied [OF res m f na' am q]
    have roles: "map role q = map role policy" using h(1) by (simp add: q_def)
    have shape: "\<exists>pre b post. policy = pre @ b # post \<and> (\<forall>x\<in>set pre. role x \<noteq> r)
        \<and> role b = r \<and> q = pre @ b\<lparr>members := members b @ [m]\<rparr> # post"
      using h(1-3) q_def by blast
    have "calls (snd (ensure_role self p r c)) = calls c @ [GetIamPolicy res, SetIamPolicy res q]
      \<and> (fst (ensure_role self p r c) \<longleftrightarrow> set_iam_policy_fault c res = None)
      \<and> (set_iam_policy_fault c res = None \<longrightarrow>
             iam_policies (snd (ensure_role self p r c)) res = q)"
      by (simp add: e split: option.splits)
    moreover from True
    have "(\<forall>b\<in>set policy. role b \<noteq> r) \<longrightarrow> q = policy @ [\<lparr>role = r, members = [m]\<rparr>]"
      by blast
    ultimately show ?thesis
      using roles shape by (intro exI [of _ q]) blast
  next
    case False
    then have no: "\<forall>b\<in>set policy. role b \<noteq> r" by blast
    define q where "q = policy @ [\<lparr>role = r, members = [m]\<rparr>]"
    from append_member_absent [OF no, of m] pol
    have am: "append_member r m (iam_policies c res) = (policy, False)" by simp
    have q: "q = (if False then policy else policy @ [\<lparr>role = r, members = [m]\<rparr>])"
      by (simp add: q_def)
    note e = ensure_role_unsatisfied [OF res m f na' am q]
    have "calls (snd (ensure_role self p r c)) = calls c @ [GetIamPolicy res, SetIamPolicy res q]
      \<and> (fst (ensure_role self p r c) \<longleftrightarrow> set_iam_policy_fault c res = None)
      \<and> (set_iam_policy_fault c res = None \<longrightarrow>
             iam_policies (snd (ensure_role self p r c)) res = q)"
      by (simp add: e split: option.splits)
    moreover from False
    have "(\<exists>b\<in>set policy. role b = r) \<longrightarrow>
           (\<exists>pre b post. policy = pre @ b # post \<and> (\<forall>x\<in>set pre. role x \<noteq> r) \<and> role b = r
              \<and> q = pre @ b\<lparr>members := members b @ [m]\<rparr> # post)
           \<and> map role q = map role policy"
      by blast
    moreover have "(\<forall>b\<in>set policy. role b \<noteq> r) \<longrightarrow> q = policy @ [\<lparr>role = r, members = [m]\<rparr>]"
      by (simp add: q_def)
    ultimately show ?thesis
      by (intro exI [of _ q]) blast
  qed
qed

lemma check_roles_eq:
  "check_roles sa rs p (v, m) =
     (v @ map (\<lambda>r. sa @ '':'' @ r) (filter (\<lambda>r. has_role sa r p) rs),
      m @ map (\<lambda>r. sa @ '':'' @ r) (filter (\<lambda>r. \<not> has_role sa r p) rs))"
  by (induction rs arbitrary: v m) auto

lemma check_accounts_eq:
  "check_accounts sas rs p (v, m) =
     (v @ concat (map (\<lambda>sa. map (\<lambda>r. sa @ '':'' @ r) (filter (\<lambda>r. has_role sa r p) rs)) sas),
      m @ concat (map (\<lambda>sa. map (\<lambda>r. sa @ '':'' @ r) (filter (\<lambda>r. \<not> has_role sa r p) rs)) sas))"
  by (induction sas arbitrary: v m) (auto simp: check_roles_eq)

lemma scan_members_set:
  "set (scan_members ms sas) =
     set sas \<union> {str_replace m ''serviceAccount:'' '''' | m.
                  m \<in> set ms \<and> startswith m ''serviceAccount:''}"
  by (induction ms arbitrary: sas) (auto simp: Let_def)

lemma scan_members_distinct: "distinct sas \<Longrightarrow> distinct (scan_members ms sas)"
  by (induction ms arbitrary: sas) (auto simp: Let_def)

lemma scan_bindings_set:
  "set (scan_bindings p sas) =
     set sas \<union> {str_replace m ''serviceAccount:'' '''' | m.
                  (\<exists>b\<in>set p. m \<in> set (members b)) \<and> startswith m ''serviceAccount:''}"
  by (induction p arbitrary: sas) (auto simp: scan_members_set)

lemma scan_bindings_distinct: "distinct sas \<Longrightarrow> distinct (scan_bindings p sas)"
  by (induction p arbitrary: sas) (auto simp: scan_members_distinct)

lemma two_orders:
  assumes "distinct xs" "set xs = {a, b}" "a \<noteq> b"
  shows "xs = [a, b] \<or> xs = [b, a]"
proof -
  from assms have "length xs = 2"
    using distinct_card [of xs] by simp
  then obtain x y where xs: "xs = [x, y]"
    by (cases xs; cases "tl xs") auto
  with assms show ?thesis by auto
qed

lemma replace_char:
  "replace_nonempty [a] [b] s = map (\<lambda>c. if c = a then b else c) s"
  by (induction s) auto


lemma startswith_append: "startswith (p @ s) p"
  by (simp add: startswith_def)

lemma str_replace_char:
  "str_replace s [a] [b] = map (\<lambda>c. if c = a then b else c) s"
  by (simp add: str_replace_def replace_char)

lemma secret_id_of_eq:
  "secret_id_of email =
     ''sa-key-'' @ map (\<lambda>ch. if ch = CHR ''@'' \<or> ch = CHR ''.'' then CHR ''-'' else ch) email"
  by (simp add: secret_id_of_def str_replace_char)

lemma validate_ok:
  assumes "res = ''projects/'' @ project_id self"
    and "get_iam_policy_fault c res = None" "iam_policies c res = pol"
  shows "fst (validate_iam_permissions self iter c) =
     (concat (map (\<lambda>sa. map (\<lambda>r. sa @ '':'' @ r)
                (filter (\<lambda>r. has_role sa r pol) (critical_roles self)))
          (iter (scan_bindings pol []))),
      concat (map (\<lambda>sa. map (\<lambda>r. sa @ '':'' @ r)
                (filter (\<lambda>r. \<not> has_role sa r pol) (critical_roles self)))
          (iter (scan_bindings pol []))))"
  using assms
  by (simp add: validate_iam_permissions_def get_iam_policy_def Let_def check_accounts_eq)

lemma scan_bindings_mem:
  "x \<in> set (scan_bindings pol []) \<longleftrightarrow>
     (\<exists>b\<in>set pol. \<exists>m\<in>set (members b).
        startswith m ''serviceAccount:'' \<and> x = str_replace m ''serviceAccount:'' '''')"
  by (auto simp: scan_bindings_set)

lemma scan_bindings_none:
  assumes "\<forall>b\<in>set pol. \<forall>m\<in>set (members b). \<not> startswith m ''serviceAccount:''"
  shows "scan_bindings pol [] = []"
proof -
  have "\<And>x. x \<notin> set (scan_bindings pol [])"
    using assms by (simp only: scan_bindings_mem) blast
  then show ?thesis by (cases "scan_bindings pol []") auto
qed

lemma has_role_none:
  assumes "\<forall>b\<in>set pol. \<forall>m\<in>set (members b). \<not> startswith m ''serviceAccount:''"
  shows "\<not> has_role e r pol"
  using assms startswith_append [of "''serviceAccount:''" e]
  by (simp only: has_role_iff) blast

lemma get_service_enabled:
  "fst (get_service n c) = Inr st \<longleftrightarrow> get_service_fault c n = None \<and> services c n = Some st"
  by (auto simp: get_service_def Let_def split: option.splits)

lemma ensure_api_enabled_aux:
  assumes "n = ''projects/'' @ project_id self @ ''/services/'' @ name"
    and "get_service_fault c n = None" "services c n = Some ENABLED"
  shows "ensure_api self name c = (True, c\<lparr>calls := calls c @ [GetService n]\<rparr>)"
  using assms by (simp add: ensure_api_def get_service_def request_def Let_def)

lemma on_exception_caught:
  "is_Exception e \<Longrightarrow> str_of e = Inr msg \<Longrightarrow>
     on_exception r e = Inr (r\<lparr>overall_status := ''error'', error := Some msg\<rparr>)"
  by (simp add: on_exception_def)

lemma on_exception_passed_on: "\<not> is_Exception e \<Longrightarrow> on_exception r e = Inl e"
  by (simp add: on_exception_def)

lemma on_exception_str_raises:
  "is_Exception e \<Longrightarrow> str_of e = Inl x \<Longrightarrow> on_exception r e = Inl x"
  by (simp add: on_exception_def)

lemma run_passes_completed:
  assumes "a c = (Inr (en, fl), c1)" "i c1 = (Inr (va, mi), c2)" "k c2 = (Inr (ro, kf), c3)"
  shows "run_passes a i k now c =
     (Inr ((initial_results now)\<lparr>apis_enabled := en, apis_failed := fl, permissions_valid := va,
        permissions_missing := mi, keys_rotated := ro, keys_failed := kf,
        overall_status := (if fl \<noteq> [] \<or> mi \<noteq> [] \<or> kf \<noteq> [] then ''issues_found''
                           else ''healthy'')\<rparr>), c3)"
  using assms by (simp add: run_passes_def Let_def)

lemma run_passes_raised_first:
  assumes "a c = (Inl e, c1)"
  shows "run_passes a i k now c = (on_exception (initial_results now) e, c1)"
  using assms by (simp add: run_passes_def Let_def)

lemma run_passes_raised_second:
  assumes "a c = (Inr (en, fl), c1)" "i c1 = (Inl e, c2)"
  shows "run_passes a i k now c =
     (on_exception ((initial_results now)\<lparr>apis_enabled := en, apis_failed := fl\<rparr>) e, c2)"
  using assms by (simp add: run_passes_def Let_def)

lemma run_passes_raised_third:
  assumes "a c = (Inr (en, fl), c1)" "i c1 = (Inr (va, mi), c2)" "k c2 = (Inl e, c3)"
  shows "run_passes a i k now c =
     (on_exception ((initial_results now)\<lparr>apis_enabled := en, apis_failed := fl,
        permissions_valid := va, permissions_missing := mi\<rparr>) e, c3)"
  using assms by (simp add: run_passes_def Let_def)

lemma on_exception_status: "on_exception r0 e = Inr r \<Longrightarrow> overall_status r = ''error''"
  by (auto simp: on_exception_def split: if_splits sum.splits)

lemma run_passes_status:
  assumes "run_passes a i k now c = (Inr r, c')"
  shows "overall_status r =
     (if escapes a i k c then ''error''
      else if apis_failed r \<noteq> [] \<or> permissions_missing r \<noteq> [] \<or> keys_failed r \<noteq> []
      then ''issues_found'' else ''healthy'')"
  using assms
  by (auto simp: run_passes_def escapes_def Let_def split: prod.splits sum.splits if_splits
        dest: on_exception_status)

lemma ensure_environment_returns:
  "\<exists>r. fst (ensure_environment self iter now c) = Inr r \<and> error r = None
       \<and> overall_status r \<noteq> ''error'' \<and> keys_rotated r = [] \<and> keys_failed r = []"
  by (simp add: ensure_environment_def run_passes_def returns_def initial_results_def Let_def
        rotate_service_account_keys_def split: prod.splits sum.splits)

lemma encode_raises:
  "encode key = Inl x \<Longrightarrow> is_Exception x \<and> str_of x = Inr ''surrogates not allowed''"
  by (auto simp: encode_def split: if_splits)

lemma store_failed_caught:
  "is_Exception e \<Longrightarrow> str_of e = Inr msg \<Longrightarrow> store_failed e c = (Inr False, c)"
  by (simp add: store_failed_def)

lemma store_failed_passed_on: "\<not> is_Exception e \<Longrightarrow> store_failed e c = (Inl e, c)"
  by (simp add: store_failed_def)

lemma store_failed_not_True: "fst (store_failed e c) \<noteq> Inr True"
  by (simp add: store_failed_def split: sum.splits)

lemma create_secret_eq:
  assumes "parent @ ''/secrets/'' @ sid = path"
  shows "create_secret parent sid c =
     (case create_secret_fault c path of
        Some e \<Rightarrow> (Inl e, c\<lparr>calls := calls c @ [CreateSecret parent sid]\<rparr>)
      | None \<Rightarrow>
          (case secrets c path of
             Some vs \<Rightarrow> (Inl (ApiError (AlreadyExists path)),
                          c\<lparr>calls := calls c @ [CreateSecret parent sid]\<rparr>)
           | None \<Rightarrow> (Inr (), c\<lparr>calls := calls c @ [CreateSecret parent sid],
                                 secrets := (secrets c)(path \<mapsto> [])\<rparr>)))"
  using assms
  by (simp add: create_secret_def Let_def request_def split: option.splits)

lemma create_secret_calls:
  "calls (snd (create_secret parent sid c)) = calls c @ [CreateSecret parent sid]"
  by (simp add: create_secret_def Let_def request_def split: option.splits)

lemma add_secret_version_calls:
  "calls (snd (add_secret_version path payload c)) = calls c @ [AddSecretVersion path payload]"
  by (simp add: add_secret_version_def Let_def request_def split: option.splits)

lemma add_version_eq:
  assumes "path = ''projects/'' @ project_id self @ ''/secrets/'' @ sid"
  shows "add_version self sid key c =
     (case encode key of
        Inl e \<Rightarrow> (Inr False, c)
      | Inr payload \<Rightarrow>
          (case add_secret_version path payload c of
             (Inl e, c1) \<Rightarrow> store_failed e c1
           | (Inr u, c1) \<Rightarrow> (Inr True, c1)))"
  using assms encode_raises [of key]
  by (auto simp: add_version_def Let_def store_failed_caught split: sum.splits)

lemma store_key_eq:
  assumes "parent = ''projects/'' @ project_id self" "sid = secret_id_of email"
  shows "store_key_in_secret_manager self email key c =
     (case create_secret parent sid c of
        (Inr u, c1) \<Rightarrow> add_version self sid key c1
      | (Inl e, c1) \<Rightarrow>
          if is_AlreadyExists_raised e then add_version self sid key c1 else store_failed e c1)"
  unfolding assms
  by (simp add: store_key_in_secret_manager_def Let_def)

lemma store_key_refused:
  assumes parent: "parent = ''projects/'' @ project_id self" and sid: "sid = secret_id_of email"
    and cr: "fst (create_secret parent sid c) = Inl e" and ne: "\<not> is_AlreadyExists_raised e"
  shows "store_key_in_secret_manager self email key c =
           store_failed e (snd (create_secret parent sid c))"
  using cr ne unfolding store_key_eq [OF parent sid]
  by (cases "create_secret parent sid c") auto

lemma store_key_created:
  assumes parent: "parent = ''projects/'' @ project_id self" and sid: "sid = secret_id_of email"
    and cr: "fst (create_secret parent sid c) = Inr ()
          \<or> (fst (create_secret parent sid c) = Inl e \<and> is_AlreadyExists_raised e)"
  shows "store_key_in_secret_manager self email key c =
           add_version self sid key (snd (create_secret parent sid c))"
  using cr unfolding store_key_eq [OF parent sid]
  by (cases "create_secret parent sid c") auto

lemma create_secret_secrets:
  assumes "parent @ ''/secrets/'' @ sid = path"
  shows "fst (create_secret parent sid c) = Inl e \<Longrightarrow>
           secrets (snd (create_secret parent sid c)) = secrets c"
    and "fst (create_secret parent sid c) = Inr () \<Longrightarrow>
           secrets c path = None \<and> secrets (snd (create_secret parent sid c)) path = Some []"
  unfolding create_secret_eq [OF assms]
  by (auto split: option.splits)

lemma add_secret_version_stored:
  "fst (add_secret_version path payload c) = Inr () \<Longrightarrow>
     secrets (snd (add_secret_version path payload c)) path =
       Some ((case secrets c path of None \<Rightarrow> [] | Some vs \<Rightarrow> vs) @ [payload])"
  by (auto simp: add_secret_version_def Let_def request_def split: option.splits)

lemma snd_store_failed: "snd (store_failed e c) = c"
  by (simp add: store_failed_def split: sum.splits)

lemma already_exists_is_Exception: "is_AlreadyExists_raised e \<Longrightarrow> is_Exception e"
  by (cases e) auto

lemma store_failed_returns:
  "is_Exception e \<Longrightarrow> str_of e = Inr m \<Longrightarrow> \<exists>b. fst (store_failed e c) = Inr b"
  by (intro exI [of _ False]) (simp add: store_failed_def)

lemma create_secret_reply:
  assumes "parent @ ''/secrets/'' @ sid = path"
    and "fst (create_secret parent sid c) = Inl e"
  shows "create_secret_fault c path = Some e \<or> e = ApiError (AlreadyExists path)"
  using assms(2) unfolding create_secret_eq [OF assms(1)]
  by (auto split: option.splits)

lemma add_secret_version_reply:
  assumes "fst (add_secret_version path payload c) = Inl e"
  shows "add_secret_version_fault c path = Some e \<or> e = ApiError (NotFound path)"
  using assms
  by (auto simp: add_secret_version_def Let_def split: option.splits)

lemma create_secret_faults:
  "add_secret_version_fault (snd (create_secret parent sid c)) = add_secret_version_fault c"
  by (simp add: create_secret_def Let_def request_def split: option.splits)

lemma add_version_returns:
  assumes path: "path = ''projects/'' @ project_id self @ ''/secrets/'' @ sid"
    and caught: "\<forall>e. add_secret_version_fault c path = Some e \<longrightarrow>
                  is_Exception e \<and> (\<exists>m. str_of e = Inr m)"
  shows "\<exists>b. fst (add_version self sid key c) = Inr b"
proof (cases "encode key")
  case (Inl x)
  then show ?thesis by (intro exI [of _ False]) (simp add: add_version_eq [OF path])
next
  case (Inr payload)
  show ?thesis
  proof (cases "add_secret_version path payload c")
    case (Pair reply c1)
    show ?thesis
    proof (cases reply)
      case (Inl e)
      with Pair add_secret_version_reply [of path payload c e]
      have "add_secret_version_fault c path = Some e \<or> e = ApiError (NotFound path)" by simp
      with caught have "is_Exception e \<and> (\<exists>m. str_of e = Inr m)" by auto
      with Inr Pair Inl show ?thesis
        by (auto simp: add_version_eq [OF path] dest: store_failed_returns)
    next
      case (Inr u)
      with \<open>encode key = Inr payload\<close> Pair show ?thesis
        by (intro exI [of _ True]) (simp add: add_version_eq [OF path])
    qed
  qed
qed

lemma store_key_aux:
  assumes parent: "parent = ''projects/'' @ project_id self" and sid: "sid = secret_id_of email"
    and path: "path = ''projects/'' @ project_id self @ ''/secrets/'' @ secret_id_of email"
  shows "(fst (create_secret parent sid c) = Inl e \<and> \<not> is_AlreadyExists_raised e
          \<and> is_Exception e \<and> str_of e = Inr msg \<longrightarrow>
        fst (store_key_in_secret_manager self email key c) = Inr False
        \<and> calls (snd (store_key_in_secret_manager self email key c)) =
            calls c @ [CreateSecret parent sid]
        \<and> secrets (snd (store_key_in_secret_manager self email key c)) = secrets c)
    \<and> ((fst (create_secret parent sid c) = Inr ()
          \<or> (fst (create_secret parent sid c) = Inl e \<and> is_AlreadyExists_raised e))
        \<and> encode key = Inr payload \<longrightarrow>
        calls (snd (store_key_in_secret_manager self email key c)) =
            calls c @ [CreateSecret parent sid, AddSecretVersion path payload]
        \<and> (fst (store_key_in_secret_manager self email key c) = Inr True \<longleftrightarrow>
             fst (add_secret_version path payload (snd (create_secret parent sid c))) = Inr ()))
    \<and> ((fst (create_secret parent sid c) = Inr ()
          \<or> (fst (create_secret parent sid c) = Inl e \<and> is_AlreadyExists_raised e))
        \<and> encode key = Inl x \<longrightarrow>
        fst (store_key_in_secret_manager self email key c) = Inr False
        \<and> calls (snd (store_key_in_secret_manager self email key c)) =
            calls c @ [CreateSecret parent sid])
    \<and> (fst (store_key_in_secret_manager self email key c) = Inr True \<longrightarrow>
        (\<exists>bytes. encode key = Inr bytes
           \<and> secrets (snd (store_key_in_secret_manager self email key c)) path
             = Some ((case secrets c path of None \<Rightarrow> [] | Some vs \<Rightarrow> vs) @ [bytes])))
    \<and> (fst (create_secret parent sid c) = Inl e \<and> \<not> is_Exception e \<longrightarrow>
        fst (store_key_in_secret_manager self email key c) = Inl e)
    \<and> ((\<forall>f. create_secret_fault c path = Some f \<longrightarrow> is_Exception f \<and> (\<exists>m. str_of f = Inr m))
        \<and> (\<forall>f. add_secret_version_fault c path = Some f \<longrightarrow>
               is_Exception f \<and> (\<exists>m. str_of f = Inr m)) \<longrightarrow>
        (\<exists>b. fst (store_key_in_secret_manager self email key c) = Inr b))"
proof -
  have pp: "parent @ ''/secrets/'' @ sid = path"
    by (simp add: parent sid path)
  have path': "path = ''projects/'' @ project_id self @ ''/secrets/'' @ sid"
    by (simp add: sid path)
  let ?c1 = "snd (create_secret parent sid c)"
  let ?res = "store_key_in_secret_manager self email key c"
  have p2: "fst (create_secret parent sid c) = Inl e \<and> \<not> is_AlreadyExists_raised e
          \<and> is_Exception e \<and> str_of e = Inr msg \<longrightarrow>
        fst ?res = Inr False \<and> calls (snd ?res) = calls c @ [CreateSecret parent sid]
        \<and> secrets (snd ?res) = secrets c"
  proof (intro impI)
    assume h: "fst (create_secret parent sid c) = Inl e \<and> \<not> is_AlreadyExists_raised e
          \<and> is_Exception e \<and> str_of e = Inr msg"
    then have "?res = store_failed e ?c1"
      using store_key_refused [OF parent sid, of c e key] by blast
    with h have "?res = (Inr False, ?c1)" by (simp add: store_failed_caught)
    with h create_secret_secrets(1) [OF pp, of c e] show "fst ?res = Inr False
        \<and> calls (snd ?res) = calls c @ [CreateSecret parent sid]
        \<and> secrets (snd ?res) = secrets c"
      by (simp add: create_secret_calls)
  qed
  have p3: "(fst (create_secret parent sid c) = Inr ()
          \<or> (fst (create_secret parent sid c) = Inl e \<and> is_AlreadyExists_raised e))
        \<and> encode key = Inr payload \<longrightarrow>
        calls (snd ?res) = calls c @ [CreateSecret parent sid, AddSecretVersion path payload]
        \<and> (fst ?res = Inr True \<longleftrightarrow> fst (add_secret_version path payload ?c1) = Inr ())"
  proof (intro impI)
    assume h: "(fst (create_secret parent sid c) = Inr ()
          \<or> (fst (create_secret parent sid c) = Inl e \<and> is_AlreadyExists_raised e))
        \<and> encode key = Inr payload"
    then have r: "?res = add_version self sid key ?c1"
      using store_key_created [OF parent sid, of c e key] by blast
    obtain reply c2 where a: "add_secret_version path payload ?c1 = (reply, c2)"
      by (cases "add_secret_version path payload ?c1")
    from add_secret_version_calls [of path payload ?c1] a
    have c2: "calls c2 = calls c @ [CreateSecret parent sid, AddSecretVersion path payload]"
      by (simp add: create_secret_calls)
    show "calls (snd ?res) = calls c @ [CreateSecret parent sid, AddSecretVersion path payload]
        \<and> (fst ?res = Inr True \<longleftrightarrow> fst (add_secret_version path payload ?c1) = Inr ())"
    proof (cases reply)
      case (Inl f)
      with h a r have "?res = store_failed f c2"
        by (simp add: add_version_eq [OF path'])
      with Inl a c2 show ?thesis
        by (simp add: snd_store_failed store_failed_not_True)
    next
      case (Inr u)
      with h a r have "?res = (Inr True, c2)"
        by (simp add: add_version_eq [OF path'])
      with Inr a c2 show ?thesis by simp
    qed
  qed
  have p4: "(fst (create_secret parent sid c) = Inr ()
          \<or> (fst (create_secret parent sid c) = Inl e \<and> is_AlreadyExists_raised e))
        \<and> encode key = Inl x \<longrightarrow>
        fst ?res = Inr False \<and> calls (snd ?res) = calls c @ [CreateSecret parent sid]"
  proof (intro impI)
    assume h: "(fst (create_secret parent sid c) = Inr ()
          \<or> (fst (create_secret parent sid c) = Inl e \<and> is_AlreadyExists_raised e))
        \<and> encode key = Inl x"
    then have "?res = add_version self sid key ?c1"
      using store_key_created [OF parent sid, of c e key] by blast
    with h have "?res = (Inr False, ?c1)"
      by (simp add: add_version_eq [OF path'])
    then show "fst ?res = Inr False \<and> calls (snd ?res) = calls c @ [CreateSecret parent sid]"
      by (simp add: create_secret_calls)
  qed
  have p5: "fst ?res = Inr True \<longrightarrow>
        (\<exists>bytes. encode key = Inr bytes
           \<and> secrets (snd ?res) path
             = Some ((case secrets c path of None \<Rightarrow> [] | Some vs \<Rightarrow> vs) @ [bytes]))"
  proof (intro impI)
    assume t: "fst ?res = Inr True"
    obtain reply c1 where cr: "create_secret parent sid c = (reply, c1)"
      by (cases "create_secret parent sid c")
    have ok: "fst (create_secret parent sid c) = Inr ()
          \<or> (\<exists>f. fst (create_secret parent sid c) = Inl f \<and> is_AlreadyExists_raised f)"
    proof (cases reply)
      case (Inl f)
      show ?thesis
      proof (cases "is_AlreadyExists_raised f")
        case True
        with Inl cr show ?thesis by simp
      next
        case False
        with Inl cr store_key_refused [OF parent sid, of c f key]
        have "?res = store_failed f ?c1" by simp
        with t store_failed_not_True [of f ?c1] show ?thesis by simp
      qed
    next
      case (Inr u)
      with cr show ?thesis by simp
    qed
    then obtain f where ok': "fst (create_secret parent sid c) = Inr ()
          \<or> (fst (create_secret parent sid c) = Inl f \<and> is_AlreadyExists_raised f)"
      by blast
    then have r: "?res = add_version self sid key ?c1"
      using store_key_created [OF parent sid, of c f key] by blast
    obtain bytes where enc: "encode key = Inr bytes"
      using t r by (cases "encode key") (auto simp: add_version_eq [OF path'])
    obtain reply2 c2 where a: "add_secret_version path bytes ?c1 = (reply2, c2)"
      by (cases "add_secret_version path bytes ?c1")
    have rep: "reply2 = Inr ()"
    proof (cases reply2)
      case (Inl g)
      with enc a r have "?res = store_failed g c2" by (simp add: add_version_eq [OF path'])
      with t store_failed_not_True [of g c2] show ?thesis by simp
    next
      case (Inr u)
      then show ?thesis by simp
    qed
    with enc a r have res: "?res = (Inr True, c2)" by (simp add: add_version_eq [OF path'])
    from rep a add_secret_version_stored [of path bytes ?c1]
    have st: "secrets c2 path =
        Some ((case secrets ?c1 path of None \<Rightarrow> [] | Some vs \<Rightarrow> vs) @ [bytes])"
      by simp
    have old: "(case secrets ?c1 path of None \<Rightarrow> [] | Some vs \<Rightarrow> vs)
             = (case secrets c path of None \<Rightarrow> [] | Some vs \<Rightarrow> vs)"
      using ok' create_secret_secrets [OF pp, of c] by auto
    from enc res st old show "\<exists>bytes. encode key = Inr bytes
           \<and> secrets (snd ?res) path
             = Some ((case secrets c path of None \<Rightarrow> [] | Some vs \<Rightarrow> vs) @ [bytes])"
      by simp
  qed
  have p6: "fst (create_secret parent sid c) = Inl e \<and> \<not> is_Exception e \<longrightarrow> fst ?res = Inl e"
  proof (intro impI)
    assume h: "fst (create_secret parent sid c) = Inl e \<and> \<not> is_Exception e"
    then have "\<not> is_AlreadyExists_raised e" using already_exists_is_Exception by blast
    with h store_key_refused [OF parent sid, of c e key]
    have "?res = store_failed e ?c1" by simp
    with h show "fst ?res = Inl e" by (simp add: store_failed_passed_on)
  qed
  have p7: "(\<forall>f. create_secret_fault c path = Some f \<longrightarrow> is_Exception f \<and> (\<exists>m. str_of f = Inr m))
        \<and> (\<forall>f. add_secret_version_fault c path = Some f \<longrightarrow>
               is_Exception f \<and> (\<exists>m. str_of f = Inr m)) \<longrightarrow>
        (\<exists>b. fst ?res = Inr b)"
  proof (intro impI)
    assume h: "(\<forall>f. create_secret_fault c path = Some f \<longrightarrow>
                  is_Exception f \<and> (\<exists>m. str_of f = Inr m))
        \<and> (\<forall>f. add_secret_version_fault c path = Some f \<longrightarrow>
               is_Exception f \<and> (\<exists>m. str_of f = Inr m))"
    then have h2: "\<forall>f. add_secret_version_fault ?c1 path = Some f \<longrightarrow>
               is_Exception f \<and> (\<exists>m. str_of f = Inr m)"
      by (simp add: create_secret_faults)
    note av = add_version_returns [OF path' h2, of key]
    obtain reply c1 where cr: "create_secret parent sid c = (reply, c1)"
      by (cases "create_secret parent sid c")
    show "\<exists>b. fst ?res = Inr b"
    proof (cases reply)
      case (Inl f)
      show ?thesis
      proof (cases "is_AlreadyExists_raised f")
        case True
        with Inl cr store_key_created [OF parent sid, of c f key] av show ?thesis by simp
      next
        case False
        with Inl cr store_key_refused [OF parent sid, of c f key]
        have r: "?res = store_failed f ?c1" by simp
        from Inl cr create_secret_reply [OF pp, of c f]
        have "create_secret_fault c path = Some f \<or> f = ApiError (AlreadyExists path)" by simp
        with h have "is_Exception f \<and> (\<exists>m. str_of f = Inr m)" by auto
        with r show ?thesis by (auto dest: store_failed_returns)
      qed
    next
      case (Inr u)
      with cr store_key_created [OF parent sid, of c e key] av show ?thesis by simp
    qed
  qed
  from p2 p3 p4 p5 p6 p7 show ?thesis by blast
qed

lemma demo_secret_id: "secret_id_of ''a@b.c'' = ''sa-key-a-b-c''"
  by (simp add: secret_id_of_eq)

lemma demo_encode: "encode key_text = Inr [75, 69, 89]"
  by (simp add: encode_def key_text_def is_surrogate_def utf8_def)

lemma demo_encode_broken: "encode broken_text = Inl (UnicodeEncodeError ''surrogates not allowed'')"
  by (simp add: encode_def broken_text_def is_surrogate_def)

lemma scenario_accounts: "scan_bindings scenario_policy [] = [''svcA'', ''svcB'']"
  by (simp add: scenario_policy_def startswith_def str_replace_def)

lemma scenario_validate:
  "fst (validate_iam_permissions demo iter scenario_cloud) =
     check_accounts (iter [''svcA'', ''svcB'']) [''R1'', ''R2''] scenario_policy ([], [])"
  by (simp add: validate_iam_permissions_def get_iam_policy_def Let_def scenario_accounts
        demo_def scenario_cloud_def empty_cloud_def)

lemma scenario_first_order:
  "check_accounts [''svcA'', ''svcB''] [''R1'', ''R2''] scenario_policy ([], []) =
     ([''svcA:R1''], [''svcA:R2'', ''svcB:R1'', ''svcB:R2''])"
  by (simp add: scenario_policy_def)

lemma scenario_second_order:
  "check_accounts [''svcB'', ''svcA''] [''R1'', ''R2''] scenario_policy ([], []) =
     ([''svcA:R1''], [''svcB:R1'', ''svcB:R2'', ''svcA:R2''])"
  by (simp add: scenario_policy_def)

lemma scenario_get:
  "fst (get_iam_policy (''projects/'' @ project_id demo) scenario_cloud) = Inr scenario_policy"
  by (simp add: get_iam_policy_def scenario_cloud_def empty_cloud_def)

lemma ensure_role_member_aux:
  assumes res: "res = ''projects/'' @ project_id self" and m: "m = ''serviceAccount:'' @ e"
    and f: "get_iam_policy_fault c res = None" and pol: "iam_policies c res = pol"
    and na: "\<not> (\<exists>b\<in>set pol. role b = r \<and> m \<in> set (members b))"
  shows "\<exists>pol'.
      calls (snd (ensure_role self e r c)) = calls c @ [GetIamPolicy res, SetIamPolicy res pol']
    \<and> (\<exists>b\<in>set pol'. role b = r \<and> m \<in> set (members b))
    \<and> (\<forall>b'\<in>set pol'. \<forall>x\<in>set (members b'). x = m \<or> (\<exists>b\<in>set pol. x \<in> set (members b)))"
proof -
  from ensure_role_grants_aux [OF res m f pol na] obtain q where
    c: "calls (snd (ensure_role self e r c)) = calls c @ [GetIamPolicy res, SetIamPolicy res q]"
    and ex: "(\<exists>b\<in>set pol. role b = r) \<longrightarrow>
           (\<exists>pre b post. pol = pre @ b # post \<and> (\<forall>x\<in>set pre. role x \<noteq> r) \<and> role b = r
              \<and> q = pre @ b\<lparr>members := members b @ [m]\<rparr> # post)
           \<and> map role q = map role pol"
    and nex: "(\<forall>b\<in>set pol. role b \<noteq> r) \<longrightarrow> q = pol @ [\<lparr>role = r, members = [m]\<rparr>]"
    by blast
  have "(\<exists>b\<in>set q. role b = r \<and> m \<in> set (members b))
    \<and> (\<forall>b'\<in>set q. \<forall>x\<in>set (members b'). x = m \<or> (\<exists>b\<in>set pol. x \<in> set (members b)))"
  proof (cases "\<exists>b\<in>set pol. role b = r")
    case True
    with ex obtain pre b post where
      h: "pol = pre @ b # post" "role b = r" "q = pre @ b\<lparr>members := members b @ [m]\<rparr> # post"
      by blast
    show ?thesis unfolding h(3) h(1) using h(2) by auto
  next
    case False
    with nex have "q = pol @ [\<lparr>role = r, members = [m]\<rparr>]" by blast
    then show ?thesis by auto
  qed
  with c show ?thesis by blast
qed

lemma users_get:
  "fst (get_iam_policy (''projects/'' @ project_id demo) users_cloud) = Inr users_policy"
  by (simp add: get_iam_policy_def users_cloud_def empty_cloud_def)

section \<open>The claims\<close>

text \<open>
  C1 (as amended). The report carries three failure/missing lists: \<open>apis_failed\<close>,
  \<open>permissions_missing\<close> and \<open>keys_failed\<close>. In a run where no sub-pass raises, the status
  of the returned report is \<open>healthy\<close> exactly when all three are empty and \<open>issues_found\<close>
  as soon as one of them is not; in a run where a sub-pass raises, the status of the
  returned report is \<open>error\<close>.
\<close>

theorem overall_status_aggregation:
  assumes "run_passes a i k now c = (Inr r, c')"
  shows "(\<not> escapes a i k c \<longrightarrow>
            (overall_status r = ''healthy'' \<longleftrightarrow>
               apis_failed r = [] \<and> permissions_missing r = [] \<and> keys_failed r = [])
          \<and> (apis_failed r \<noteq> [] \<or> permissions_missing r \<noteq> [] \<or> keys_failed r \<noteq> []
               \<longrightarrow> overall_status r = ''issues_found''))
       \<and> (escapes a i k c \<longrightarrow> overall_status r = ''error'')"
  using run_passes_status [OF assms] by simp

theorem overall_status_aggregation_witness:
  "run_passes (returning [''A''] [''B'']) (returning [] []) (returning [] []) ''t'' empty_cloud
     = (Inr ((initial_results ''t'')\<lparr>apis_enabled := [''A''], apis_failed := [''B''],
          overall_status := ''issues_found''\<rparr>), empty_cloud)
   \<and> \<not> escapes (returning [''A''] [''B'']) (returning [] []) (returning [] []) empty_cloud
   \<and> run_passes (returning [''A''] []) (raising ''boom'') (returning [] []) ''t'' empty_cloud
     = (Inr ((initial_results ''t'')\<lparr>apis_enabled := [''A''], overall_status := ''error'',
          error := Some ''boom''\<rparr>), empty_cloud)
   \<and> escapes (returning [''A''] []) (raising ''boom'') (returning [] []) empty_cloud"
proof -
  have r1: "run_passes (returning [''A''] [''B'']) (returning [] []) (returning [] []) ''t''
      empty_cloud = (Inr ((initial_results ''t'')\<lparr>apis_enabled := [''A''], apis_failed := [''B''],
          overall_status := ''issues_found''\<rparr>), empty_cloud)"
    by (simp add: run_passes_def returning_def initial_results_def Let_def)
  have e1: "\<not> escapes (returning [''A''] [''B'']) (returning [] []) (returning [] []) empty_cloud"
    by (simp add: escapes_def returning_def)
  have r2: "run_passes (returning [''A''] []) (raising ''boom'') (returning [] []) ''t''
      empty_cloud = (Inr ((initial_results ''t'')\<lparr>apis_enabled := [''A''],
          overall_status := ''error'', error := Some ''boom''\<rparr>), empty_cloud)"
    by (simp add: run_passes_def returning_def raising_def initial_results_def on_exception_def
          Let_def)
  have e2: "escapes (returning [''A''] []) (raising ''boom'') (returning [] []) empty_cloud"
    by (simp add: escapes_def returning_def raising_def)
  from overall_status_aggregation [OF r1] overall_status_aggregation [OF r2] r1 e1 r2 e2
  show ?thesis by simp
qed

text \<open>
  C1 as stated speaks of four failure/missing lists. In the run below the three lists
  the status depends on are empty and each of the other three lists of the report
  (\<open>apis_enabled\<close>, \<open>permissions_valid\<close>, \<open>keys_rotated\<close>) is non-empty, and the status is
  \<open>healthy\<close>: no fourth list of the report takes part in the status.
\<close>

theorem overall_status_four_lists_counterexample:
  "sample_run = Inr sample_report
   \<and> overall_status sample_report = ''healthy''
   \<and> apis_failed sample_report = [] \<and> permissions_missing sample_report = []
   \<and> keys_failed sample_report = []
   \<and> apis_enabled sample_report \<noteq> [] \<and> permissions_valid sample_report \<noteq> []
   \<and> keys_rotated sample_report \<noteq> []"
  by (simp add: sample_run_def sample_report_def run_passes_def returning_def
        initial_results_def Let_def)

text \<open>
  C2 (as amended). \<open>ensure_environment\<close> returns a report whenever each sub-pass either
  returns or raises an exception derived from \<open>Exception\<close> whose message \<open>str(e)\<close> can be
  formed. When such a sub-pass raises, the status is \<open>error\<close>, the key \<open>error\<close> holds the
  exception's message, and the lists stored from the sub-passes that had returned are
  kept; the others are as first built. An exception that is not derived from
  \<open>Exception\<close> goes on to the caller, and so does what \<open>str(e)\<close> raises. With the facade's
  own sub-passes, which catch the API errors themselves, a report is returned, without
  the key \<open>error\<close> and without the status \<open>error\<close>.
\<close>

theorem ensure_environment_catches_exceptions:
  "(a c = (Inl e, c1) \<and> is_Exception e \<and> str_of e = Inr msg \<longrightarrow>
      fst (run_passes a i k now c) =
        Inr ((initial_results now)\<lparr>overall_status := ''error'', error := Some msg\<rparr>))
   \<and> (a c = (Inr (en, fl), c1) \<and> i c1 = (Inl e, c2) \<and> is_Exception e \<and> str_of e = Inr msg \<longrightarrow>
      fst (run_passes a i k now c) =
        Inr ((initial_results now)\<lparr>apis_enabled := en, apis_failed := fl,
           overall_status := ''error'', error := Some msg\<rparr>))
   \<and> (a c = (Inr (en, fl), c1) \<and> i c1 = (Inr (va, mi), c2) \<and> k c2 = (Inl e, c3)
        \<and> is_Exception e \<and> str_of e = Inr msg \<longrightarrow>
      fst (run_passes a i k now c) =
        Inr ((initial_results now)\<lparr>apis_enabled := en, apis_failed := fl,
           permissions_valid := va, permissions_missing := mi,
           overall_status := ''error'', error := Some msg\<rparr>))
   \<and> (a c = (Inl e, c1) \<or> (a c = (Inr (en, fl), c1) \<and> i c1 = (Inl e, c2))
        \<or> (a c = (Inr (en, fl), c1) \<and> i c1 = (Inr (va, mi), c2) \<and> k c2 = (Inl e, c3)) \<longrightarrow>
        (\<not> is_Exception e \<longrightarrow> fst (run_passes a i k now c) = Inl e)
        \<and> (is_Exception e \<and> str_of e = Inl x \<longrightarrow> fst (run_passes a i k now c) = Inl x))
   \<and> (a c = (Inr (en, fl), c1) \<and> i c1 = (Inr (va, mi), c2) \<and> k c2 = (Inr (ro, kf), c3) \<longrightarrow>
        (\<exists>r. fst (run_passes a i k now c) = Inr r))
   \<and> (\<exists>r. fst (ensure_environment self iter now c) = Inr r \<and> error r = None
          \<and> overall_status r \<noteq> ''error'')"
proof -
  have p1: "a c = (Inl e, c1) \<and> is_Exception e \<and> str_of e = Inr msg \<longrightarrow>
      fst (run_passes a i k now c) =
        Inr ((initial_results now)\<lparr>overall_status := ''error'', error := Some msg\<rparr>)"
    by (simp add: run_passes_raised_first on_exception_caught)
  have p2: "a c = (Inr (en, fl), c1) \<and> i c1 = (Inl e, c2) \<and> is_Exception e
        \<and> str_of e = Inr msg \<longrightarrow>
      fst (run_passes a i k now c) =
        Inr ((initial_results now)\<lparr>apis_enabled := en, apis_failed := fl,
           overall_status := ''error'', error := Some msg\<rparr>)"
    by (simp add: run_passes_raised_second on_exception_caught)
  have p3: "a c = (Inr (en, fl), c1) \<and> i c1 = (Inr (va, mi), c2) \<and> k c2 = (Inl e, c3)
        \<and> is_Exception e \<and> str_of e = Inr msg \<longrightarrow>
      fst (run_passes a i k now c) =
        Inr ((initial_results now)\<lparr>apis_enabled := en, apis_failed := fl,
           permissions_valid := va, permissions_missing := mi,
           overall_status := ''error'', error := Some msg\<rparr>)"
    by (simp add: run_passes_raised_third on_exception_caught)
  have p4: "a c = (Inl e, c1) \<or> (a c = (Inr (en, fl), c1) \<and> i c1 = (Inl e, c2))
        \<or> (a c = (Inr (en, fl), c1) \<and> i c1 = (Inr (va, mi), c2) \<and> k c2 = (Inl e, c3)) \<longrightarrow>
        (\<not> is_Exception e \<longrightarrow> fst (run_passes a i k now c) = Inl e)
        \<and> (is_Exception e \<and> str_of e = Inl x \<longrightarrow> fst (run_passes a i k now c) = Inl x)"
    by (auto simp: run_passes_raised_first run_passes_raised_second run_passes_raised_third
          on_exception_passed_on on_exception_str_raises)
  have p5: "a c = (Inr (en, fl), c1) \<and> i c1 = (Inr (va, mi), c2) \<and> k c2 = (Inr (ro, kf), c3)
        \<longrightarrow> (\<exists>r. fst (run_passes a i k now c) = Inr r)"
    by (simp add: run_passes_completed)
  have p6: "\<exists>r. fst (ensure_environment self iter now c) = Inr r \<and> error r = None
          \<and> overall_status r \<noteq> ''error''"
    using ensure_environment_returns [of self iter now c] by blast
  from p1 p2 p3 p4 p5 p6 show ?thesis by blast
qed

theorem ensure_environment_catches_exceptions_witness:
  "raising ''x1'' empty_cloud = (Inl (ApiError (GoogleCloudError ''x1'')), empty_cloud)
   \<and> is_Exception (ApiError (GoogleCloudError ''x1''))
   \<and> str_of (ApiError (GoogleCloudError ''x1'')) = Inr ''x1''
   \<and> fst (run_passes (raising ''x1'') (returning [''v''] []) (returning [] []) ''t'' empty_cloud)
       = Inr ((initial_results ''t'')\<lparr>overall_status := ''error'', error := Some ''x1''\<rparr>)
   \<and> returning [''A''] [''B''] empty_cloud = (Inr ([''A''], [''B'']), empty_cloud)
   \<and> raising ''x2'' empty_cloud = (Inl (ApiError (GoogleCloudError ''x2'')), empty_cloud)
   \<and> fst (run_passes (returning [''A''] [''B'']) (raising ''x2'') (returning [] []) ''t''
            empty_cloud)
       = Inr ((initial_results ''t'')\<lparr>apis_enabled := [''A''], apis_failed := [''B''],
            overall_status := ''error'', error := Some ''x2''\<rparr>)
   \<and> returning [''v''] [''m''] empty_cloud = (Inr ([''v''], [''m'']), empty_cloud)
   \<and> raising ''x3'' empty_cloud = (Inl (ApiError (GoogleCloudError ''x3'')), empty_cloud)
   \<and> fst (run_passes (returning [''A''] [''B'']) (returning [''v''] [''m'']) (raising ''x3'') ''t''
            empty_cloud)
       = Inr ((initial_results ''t'')\<lparr>apis_enabled := [''A''], apis_failed := [''B''],
            permissions_valid := [''v''], permissions_missing := [''m''],
            overall_status := ''error'', error := Some ''x3''\<rparr>)
   \<and> interrupted empty_cloud = (Inl KeyboardInterrupt, empty_cloud)
   \<and> \<not> is_Exception KeyboardInterrupt
   \<and> fst (run_passes (returning [''A''] [''B'']) interrupted (returning [] []) ''t'' empty_cloud)
       = Inl KeyboardInterrupt"
proof -
  have a1: "raising ''x1'' empty_cloud = (Inl (ApiError (GoogleCloudError ''x1'')), empty_cloud)"
    and a2: "raising ''x2'' empty_cloud = (Inl (ApiError (GoogleCloudError ''x2'')), empty_cloud)"
    and a3: "raising ''x3'' empty_cloud = (Inl (ApiError (GoogleCloudError ''x3'')), empty_cloud)"
    and b1: "returning [''A''] [''B''] empty_cloud = (Inr ([''A''], [''B'']), empty_cloud)"
    and b2: "returning [''v''] [''m''] empty_cloud = (Inr ([''v''], [''m'']), empty_cloud)"
    and b3: "interrupted empty_cloud = (Inl KeyboardInterrupt, empty_cloud)"
    by (simp_all add: raising_def returning_def interrupted_def)
  have s: "\<And>m. is_Exception (ApiError (GoogleCloudError m))
      \<and> str_of (ApiError (GoogleCloudError m)) = Inr m"
    by simp
  have n: "\<not> is_Exception KeyboardInterrupt" by simp
  note t1 = ensure_environment_catches_exceptions
    [of "raising ''x1''" empty_cloud "ApiError (GoogleCloudError ''x1'')" empty_cloud "''x1''"
        "returning [''v''] []" "returning [] []" "''t''"]
  note t2 = ensure_environment_catches_exceptions
    [of "returning [''A''] [''B'']" empty_cloud "ApiError (GoogleCloudError ''x2'')" empty_cloud
        "''x2''" "raising ''x2''" "returning [] []" "''t''" "[''A'']" "[''B'']" empty_cloud]
  note t3 = ensure_environment_catches_exceptions
    [of "returning [''A''] [''B'']" empty_cloud "ApiError (GoogleCloudError ''x3'')" empty_cloud
        "''x3''" "returning [''v''] [''m'']" "raising ''x3''" "''t''" "[''A'']" "[''B'']"
        empty_cloud "[''v'']" "[''m'']" empty_cloud]
  note t4 = ensure_environment_catches_exceptions
    [of "returning [''A''] [''B'']" empty_cloud KeyboardInterrupt empty_cloud
        "''''" interrupted "returning [] []" "''t''" "[''A'']" "[''B'']" empty_cloud]
  from t1 a1 s have r1: "fst (run_passes (raising ''x1'') (returning [''v''] [])
      (returning [] []) ''t'' empty_cloud)
       = Inr ((initial_results ''t'')\<lparr>overall_status := ''error'', error := Some ''x1''\<rparr>)"
    by blast
  from t2 a2 b1 s have r2: "fst (run_passes (returning [''A''] [''B'']) (raising ''x2'')
      (returning [] []) ''t'' empty_cloud)
       = Inr ((initial_results ''t'')\<lparr>apis_enabled := [''A''], apis_failed := [''B''],
            overall_status := ''error'', error := Some ''x2''\<rparr>)"
    by blast
  from t3 a3 b1 b2 s have r3: "fst (run_passes (returning [''A''] [''B''])
      (returning [''v''] [''m'']) (raising ''x3'') ''t'' empty_cloud)
       = Inr ((initial_results ''t'')\<lparr>apis_enabled := [''A''], apis_failed := [''B''],
            permissions_valid := [''v''], permissions_missing := [''m''],
            overall_status := ''error'', error := Some ''x3''\<rparr>)"
    by blast
  from t4 b1 b3 n have r4: "fst (run_passes (returning [''A''] [''B'']) interrupted
      (returning [] []) ''t'' empty_cloud) = Inl KeyboardInterrupt"
    by blast
  from r1 r2 r3 r4 a1 a2 a3 b1 b2 b3 n s [of "''x1''"] show ?thesis by blast
qed

text \<open>
  C2 as stated has \<open>ensure_environment\<close> return a report whenever a sub-pass throws. In
  the run below the second sub-pass is left by \<open>KeyboardInterrupt\<close>, which
  \<open>except Exception\<close> does not catch: the call raises it and no report is returned.
\<close>

theorem ensure_environment_interrupt_counterexample:
  "interrupted empty_cloud = (Inl KeyboardInterrupt, empty_cloud)
   \<and> fst (run_passes (returning [''A''] []) interrupted (returning [] []) ''t'' empty_cloud)
       = Inl KeyboardInterrupt"
  by (simp add: run_passes_def returning_def interrupted_def on_exception_def Let_def)

text \<open>
  C3. When the fetched policy has no binding of role \<open>r\<close> that contains the member
  \<open>serviceAccount:{p}\<close>, \<open>ensure_role\<close> issues the policy read and then exactly one
  \<open>set_iam_policy\<close> carrying the whole modified policy, and returns true exactly when that
  write is accepted (the provider then stores the modified policy). If the policy has a
  binding of role \<open>r\<close>, the modified policy is the old one with the member appended to the
  first such binding: no binding is added and every binding keeps its role. If it has
  none, the modified policy is the old one followed by one new binding of role \<open>r\<close> whose
  only member is \<open>serviceAccount:{p}\<close>.
\<close>

theorem ensure_role_grants:
  assumes "fst (get_iam_policy (''projects/'' @ project_id self) c) = Inr policy"
    and "\<not> (\<exists>b\<in>set policy. role b = r \<and> (''serviceAccount:'' @ p) \<in> set (members b))"
  shows "\<exists>policy'.
      calls (snd (ensure_role self p r c)) =
        calls c @ [GetIamPolicy (''projects/'' @ project_id self),
                   SetIamPolicy (''projects/'' @ project_id self) policy']
    \<and> (fst (ensure_role self p r c) \<longleftrightarrow>
           set_iam_policy_fault c (''projects/'' @ project_id self) = None)
    \<and> (set_iam_policy_fault c (''projects/'' @ project_id self) = None \<longrightarrow>
           iam_policies (snd (ensure_role self p r c)) (''projects/'' @ project_id self) = policy')
    \<and> ((\<exists>b\<in>set policy. role b = r) \<longrightarrow>
           (\<exists>pre b post. policy = pre @ b # post \<and> (\<forall>x\<in>set pre. role x \<noteq> r) \<and> role b = r
              \<and> policy' = pre @ b\<lparr>members := members b @ [''serviceAccount:'' @ p]\<rparr> # post)
           \<and> map role policy' = map role policy)
    \<and> ((\<forall>b\<in>set policy. role b \<noteq> r) \<longrightarrow>
           policy' = policy @ [\<lparr>role = r, members = [''serviceAccount:'' @ p]\<rparr>])"
  using assms ensure_role_grants_aux [OF refl refl, of c self policy r p]
  by (simp only: get_iam_policy_ok) blast

theorem ensure_role_grants_witness:
  "fst (get_iam_policy (''projects/'' @ project_id demo) scenario_cloud) = Inr scenario_policy
   \<and> \<not> (\<exists>b\<in>set scenario_policy. role b = ''R1''
            \<and> (''serviceAccount:'' @ ''svcB'') \<in> set (members b))
   \<and> (\<exists>b\<in>set scenario_policy. role b = ''R1'')
   \<and> ensure_role demo ''svcB'' ''R1'' scenario_cloud =
       (True, scenario_cloud
          \<lparr>calls := [GetIamPolicy ''projects/p'',
              SetIamPolicy ''projects/p''
                [\<lparr>role = ''R1'', members = [''serviceAccount:svcA'', ''serviceAccount:svcB'']\<rparr>,
                 \<lparr>role = ''R3'', members = [''serviceAccount:svcB'', ''user:carol'']\<rparr>]],
            iam_policies := (iam_policies scenario_cloud)(''projects/p'' :=
                [\<lparr>role = ''R1'', members = [''serviceAccount:svcA'', ''serviceAccount:svcB'']\<rparr>,
                 \<lparr>role = ''R3'', members = [''serviceAccount:svcB'', ''user:carol'']\<rparr>])\<rparr>)
   \<and> \<not> (\<exists>b\<in>set scenario_policy. role b = ''R9''
            \<and> (''serviceAccount:'' @ ''svcB'') \<in> set (members b))
   \<and> \<not> (\<exists>b\<in>set scenario_policy. role b = ''R9'')
   \<and> calls (snd (ensure_role demo ''svcB'' ''R9'' scenario_cloud)) =
       [GetIamPolicy ''projects/p'',
        SetIamPolicy ''projects/p''
          (scenario_policy @ [\<lparr>role = ''R9'', members = [''serviceAccount:svcB'']\<rparr>])]"
proof -
  have h1: "fst (get_iam_policy (''projects/'' @ project_id demo) scenario_cloud)
              = Inr scenario_policy"
    by (simp add: get_iam_policy_def scenario_cloud_def empty_cloud_def)
  have h2: "\<not> (\<exists>b\<in>set scenario_policy. role b = ''R1''
            \<and> (''serviceAccount:'' @ ''svcB'') \<in> set (members b))"
    by (simp add: scenario_policy_def)
  have h3: "\<not> (\<exists>b\<in>set scenario_policy. role b = ''R9''
            \<and> (''serviceAccount:'' @ ''svcB'') \<in> set (members b))"
    by (simp add: scenario_policy_def)
  have h4: "\<exists>b\<in>set scenario_policy. role b = ''R1''"
    and h5: "\<forall>b\<in>set scenario_policy. role b \<noteq> ''R9''"
    by (simp_all add: scenario_policy_def)
  have v1: "ensure_role demo ''svcB'' ''R1'' scenario_cloud =
       (True, scenario_cloud
          \<lparr>calls := [GetIamPolicy ''projects/p'',
              SetIamPolicy ''projects/p''
                [\<lparr>role = ''R1'', members = [''serviceAccount:svcA'', ''serviceAccount:svcB'']\<rparr>,
                 \<lparr>role = ''R3'', members = [''serviceAccount:svcB'', ''user:carol'']\<rparr>]],
            iam_policies := (iam_policies scenario_cloud)(''projects/p'' :=
                [\<lparr>role = ''R1'', members = [''serviceAccount:svcA'', ''serviceAccount:svcB'']\<rparr>,
                 \<lparr>role = ''R3'', members = [''serviceAccount:svcB'', ''user:carol'']\<rparr>])\<rparr>)"
    by (simp add: ensure_role_def get_iam_policy_def set_iam_policy_def request_def Let_def
          demo_def scenario_cloud_def empty_cloud_def scenario_policy_def)
  from ensure_role_grants [OF h1 h3] h5
  have v2: "calls (snd (ensure_role demo ''svcB'' ''R9'' scenario_cloud)) =
       [GetIamPolicy ''projects/p'',
        SetIamPolicy ''projects/p''
          (scenario_policy @ [\<lparr>role = ''R9'', members = [''serviceAccount:svcB'']\<rparr>])]"
    by (auto simp: demo_def scenario_cloud_def empty_cloud_def)
  from h5 have h6: "\<not> (\<exists>b\<in>set scenario_policy. role b = ''R9'')" by blast
  from ensure_role_grants [OF h1 h2] h1 h2 h3 h4 h6 v1 v2 show ?thesis
    by simp
qed

text \<open>
  C4 (as amended). \<open>_validate_iam_permissions\<close> collects its principals from the members
  of every binding of the fetched policy that start with \<open>serviceAccount:\<close> (each once,
  with that text removed). For each of them, in the order in which the set is iterated,
  and for each critical role in list order, the entry \<open>{principal}:{role}\<close> goes to the
  valid list if the principal holds the role and to the missing list otherwise. In the
  scenario the valid list is \<open>svcA:R1\<close>, and the missing list has the entries \<open>svcA:R2\<close>,
  \<open>svcB:R1\<close>, \<open>svcB:R2\<close>, those of \<open>svcA\<close> first or those of \<open>svcB\<close> first.
\<close>

theorem validate_iam_permissions_results:
  "(fst (get_iam_policy (''projects/'' @ project_id self) c) = Inr pol \<longrightarrow>
      fst (validate_iam_permissions self iter c) =
        (concat (map (\<lambda>sa. map (\<lambda>r. sa @ '':'' @ r)
                   (filter (\<lambda>r. has_role sa r pol) (critical_roles self)))
             (iter (scan_bindings pol []))),
         concat (map (\<lambda>sa. map (\<lambda>r. sa @ '':'' @ r)
                   (filter (\<lambda>r. \<not> has_role sa r pol) (critical_roles self)))
             (iter (scan_bindings pol []))))
      \<and> distinct (scan_bindings pol [])
      \<and> set (scan_bindings pol []) =
          {str_replace m ''serviceAccount:'' '''' | m.
             (\<exists>b\<in>set pol. m \<in> set (members b)) \<and> startswith m ''serviceAccount:''})
   \<and> (distinct (iter [''svcA'', ''svcB'']) \<and> set (iter [''svcA'', ''svcB'']) = {''svcA'', ''svcB''}
        \<longrightarrow>
        fst (validate_iam_permissions demo iter scenario_cloud) =
          ([''svcA:R1''], [''svcA:R2'', ''svcB:R1'', ''svcB:R2''])
        \<or> fst (validate_iam_permissions demo iter scenario_cloud) =
          ([''svcA:R1''], [''svcB:R1'', ''svcB:R2'', ''svcA:R2'']))"
proof -
  have general: "fst (get_iam_policy (''projects/'' @ project_id self) c) = Inr pol \<longrightarrow>
      fst (validate_iam_permissions self iter c) =
        (concat (map (\<lambda>sa. map (\<lambda>r. sa @ '':'' @ r)
                   (filter (\<lambda>r. has_role sa r pol) (critical_roles self)))
             (iter (scan_bindings pol []))),
         concat (map (\<lambda>sa. map (\<lambda>r. sa @ '':'' @ r)
                   (filter (\<lambda>r. \<not> has_role sa r pol) (critical_roles self)))
             (iter (scan_bindings pol []))))
      \<and> distinct (scan_bindings pol [])
      \<and> set (scan_bindings pol []) =
          {str_replace m ''serviceAccount:'' '''' | m.
             (\<exists>b\<in>set pol. m \<in> set (members b)) \<and> startswith m ''serviceAccount:''}"
    using validate_ok [OF refl, of c self pol iter] scan_bindings_distinct [of "[]" pol]
      scan_bindings_set [of pol "[]"]
    by (simp only: get_iam_policy_ok) simp
  have scenario: "distinct (iter [''svcA'', ''svcB''])
        \<and> set (iter [''svcA'', ''svcB'']) = {''svcA'', ''svcB''} \<longrightarrow>
        fst (validate_iam_permissions demo iter scenario_cloud) =
          ([''svcA:R1''], [''svcA:R2'', ''svcB:R1'', ''svcB:R2''])
        \<or> fst (validate_iam_permissions demo iter scenario_cloud) =
          ([''svcA:R1''], [''svcB:R1'', ''svcB:R2'', ''svcA:R2''])"
  proof
    assume h: "distinct (iter [''svcA'', ''svcB''])
        \<and> set (iter [''svcA'', ''svcB'']) = {''svcA'', ''svcB''}"
    have ne: "''svcA'' \<noteq> ''svcB''" by simp
    from h two_orders [of "iter [''svcA'', ''svcB'']" "''svcA''" "''svcB''", OF _ _ ne]
    have "iter [''svcA'', ''svcB''] = [''svcA'', ''svcB'']
        \<or> iter [''svcA'', ''svcB''] = [''svcB'', ''svcA'']"
      by blast
    then show "fst (validate_iam_permissions demo iter scenario_cloud) =
          ([''svcA:R1''], [''svcA:R2'', ''svcB:R1'', ''svcB:R2''])
        \<or> fst (validate_iam_permissions demo iter scenario_cloud) =
          ([''svcA:R1''], [''svcB:R1'', ''svcB:R2'', ''svcA:R2''])"
      using scenario_first_order scenario_second_order
      by (auto simp only: scenario_validate)
  qed
  from general scenario show ?thesis by blast
qed

theorem validate_iam_permissions_results_witness:
  "fst (get_iam_policy (''projects/'' @ project_id demo) scenario_cloud) = Inr scenario_policy
   \<and> distinct [''svcA'', ''svcB''] \<and> set [''svcA'', ''svcB''] = {''svcA'', ''svcB''}
   \<and> fst (validate_iam_permissions demo (\<lambda>xs. xs) scenario_cloud) =
       ([''svcA:R1''], [''svcA:R2'', ''svcB:R1'', ''svcB:R2''])
   \<and> set (scan_bindings scenario_policy []) = {''svcA'', ''svcB''}"
proof -
  have d: "distinct [''svcA'', ''svcB''] \<and> set [''svcA'', ''svcB''] = {''svcA'', ''svcB''}"
    by simp
  have v: "fst (validate_iam_permissions demo (\<lambda>xs. xs) scenario_cloud) =
       ([''svcA:R1''], [''svcA:R2'', ''svcB:R1'', ''svcB:R2''])"
    by (simp only: scenario_validate scenario_first_order)
  from validate_iam_permissions_results [of demo scenario_cloud scenario_policy "\<lambda>xs. xs"]
    scenario_get d v
  show ?thesis by (simp add: scenario_policy_def startswith_def str_replace_def demo_def)
qed

text \<open>
  C4 as stated fixes the order of the missing list. Python does not fix the order in
  which a set is iterated; when \<open>svcB\<close> comes first, the missing list starts with its
  entries and differs from the list of the claim.
\<close>

theorem validate_scenario_order_counterexample:
  "distinct (rev [''svcA'', ''svcB'']) \<and> set (rev [''svcA'', ''svcB'']) = {''svcA'', ''svcB''}
   \<and> fst (validate_iam_permissions demo rev scenario_cloud) =
       ([''svcA:R1''], [''svcB:R1'', ''svcB:R2'', ''svcA:R2''])
   \<and> fst (validate_iam_permissions demo rev scenario_cloud) \<noteq>
       ([''svcA:R1''], [''svcA:R2'', ''svcB:R1'', ''svcB:R2''])"
proof -
  have r: "rev [''svcA'', ''svcB''] = [''svcB'', ''svcA'']" by simp
  have "fst (validate_iam_permissions demo rev scenario_cloud) =
       ([''svcA:R1''], [''svcB:R1'', ''svcB:R2'', ''svcA:R2''])"
    by (simp only: scenario_validate r scenario_second_order)
  then show ?thesis by auto
qed

text \<open>
  C5. When the policy snapshot returned by the provider has a binding of the role that
  contains the member \<open>serviceAccount:{email}\<close>, \<open>ensure_role\<close> returns true, the only
  request it has issued is the policy read (no write), and the stored policies are
  unchanged.
\<close>

theorem ensure_role_idempotent:
  assumes "fst (get_iam_policy (''projects/'' @ project_id self) c) = Inr policy"
    and "\<exists>b\<in>set policy. role b = r \<and> (''serviceAccount:'' @ p) \<in> set (members b)"
  shows "fst (ensure_role self p r c) = True
    \<and> calls (snd (ensure_role self p r c)) =
          calls c @ [GetIamPolicy (''projects/'' @ project_id self)]
    \<and> iam_policies (snd (ensure_role self p r c)) = iam_policies c"
proof -
  from assms(1) have f: "get_iam_policy_fault c (''projects/'' @ project_id self) = None"
    and p: "iam_policies c (''projects/'' @ project_id self) = policy"
    by (simp_all only: get_iam_policy_ok)
  from assms(2) p have "already_assigned r (''serviceAccount:'' @ p)
      (iam_policies c (''projects/'' @ project_id self))"
    by (simp only: already_assigned_iff)
  from ensure_role_satisfied [OF refl refl f this] show ?thesis
    by simp
qed

theorem ensure_role_idempotent_witness:
  "fst (get_iam_policy (''projects/'' @ project_id demo) scenario_cloud) = Inr scenario_policy
   \<and> (\<exists>b\<in>set scenario_policy. role b = ''R1'' \<and> (''serviceAccount:'' @ ''svcA'') \<in> set (members b))
   \<and> fst (ensure_role demo ''svcA'' ''R1'' scenario_cloud) = True
   \<and> calls (snd (ensure_role demo ''svcA'' ''R1'' scenario_cloud)) = [GetIamPolicy ''projects/p'']
   \<and> iam_policies (snd (ensure_role demo ''svcA'' ''R1'' scenario_cloud)) ''projects/p''
       = scenario_policy"
proof -
  have h1: "fst (get_iam_policy (''projects/'' @ project_id demo) scenario_cloud)
              = Inr scenario_policy"
    by (simp add: get_iam_policy_def scenario_cloud_def empty_cloud_def)
  have h2: "\<exists>b\<in>set scenario_policy. role b = ''R1''
              \<and> (''serviceAccount:'' @ ''svcA'') \<in> set (members b)"
    by (simp add: scenario_policy_def)
  from ensure_role_idempotent [OF h1 h2] h1 h2 show ?thesis
    by (simp add: demo_def scenario_cloud_def empty_cloud_def)
qed

text \<open>
  C6. When the provider reports the service \<open>projects/{project}/services/{name}\<close> as
  enabled, \<open>ensure_api\<close> returns true, the only request it has issued is that
  \<open>get_service\<close> (no enable request), and the enablement state is unchanged.
\<close>

theorem ensure_api_idempotent:
  assumes "fst (get_service (''projects/'' @ project_id self @ ''/services/'' @ name) c)
             = Inr ENABLED"
  shows "fst (ensure_api self name c) = True
    \<and> calls (snd (ensure_api self name c)) =
          calls c @ [GetService (''projects/'' @ project_id self @ ''/services/'' @ name)]
    \<and> services (snd (ensure_api self name c)) = services c"
  using assms ensure_api_enabled_aux [OF refl, of c self name]
  by (simp only: get_service_enabled) simp

theorem ensure_api_idempotent_witness:
  "fst (get_service (''projects/'' @ project_id demo @ ''/services/'' @ ''A'') enabled_cloud)
     = Inr ENABLED
   \<and> fst (ensure_api demo ''A'' enabled_cloud) = True
   \<and> calls (snd (ensure_api demo ''A'' enabled_cloud)) = [GetService ''projects/p/services/A'']"
proof -
  have h: "fst (get_service (''projects/'' @ project_id demo @ ''/services/'' @ ''A'')
             enabled_cloud) = Inr ENABLED"
    by (simp add: get_service_def demo_def enabled_cloud_def empty_cloud_def)
  from ensure_api_idempotent [OF h] h show ?thesis
    by (simp add: demo_def enabled_cloud_def empty_cloud_def)
qed

text \<open>
  C7. When the policy read raises during \<open>_validate_iam_permissions\<close>, the valid list is
  empty and the missing list is the single entry \<open>validation_error: \<close> followed by the
  exception's message; no entry for any principal is produced.
\<close>

theorem validate_fetch_failure:
  assumes "fst (get_iam_policy (''projects/'' @ project_id self) c) = Inl e"
  shows "fst (validate_iam_permissions self iter c) = ([], [''validation_error: '' @ str e])"
  using assms
  by (auto simp: validate_iam_permissions_def get_iam_policy_def Let_def split: option.splits)

theorem validate_fetch_failure_witness:
  "fst (get_iam_policy (''projects/'' @ project_id demo) denied_cloud)
     = Inl (PermissionDenied ''403 denied'')
   \<and> fst (validate_iam_permissions demo rev denied_cloud)
       = ([], [''validation_error: 403 denied''])"
proof -
  have h: "fst (get_iam_policy (''projects/'' @ project_id demo) denied_cloud)
             = Inl (PermissionDenied ''403 denied'')"
    by (simp add: get_iam_policy_def denied_cloud_def)
  from validate_fetch_failure [OF h, of rev] h show ?thesis
    by simp
qed

text \<open>
  C8 (as amended). The secret identifier is \<open>sa-key-\<close> followed by the email with every
  \<open>@\<close> and every \<open>.\<close> replaced by \<open>-\<close> (nothing else changes), so it is a function of the
  email alone. \<open>_store_key_in_secret_manager\<close> first asks for the secret to be created.
  If that request raises an exception derived from \<open>Exception\<close> other than
  \<open>AlreadyExists\<close>, the result is false and no version is added. Otherwise, if the key
  can be encoded, exactly one \<open>add_secret_version\<close> follows, carrying the encoded key, and
  the result is true exactly when that request returns; on true the secret holds its
  earlier versions followed by the new payload. If the key cannot be encoded, no
  version is added and the result is false. An exception of the secret store that is
  not derived from \<open>Exception\<close> goes on to the caller; when every exception the store
  raises is derived from \<open>Exception\<close> and has a message, the function returns a boolean.
\<close>

theorem store_key_behaviour:
  "secret_id_of email =
     ''sa-key-'' @ map (\<lambda>ch. if ch = CHR ''@'' \<or> ch = CHR ''.'' then CHR ''-'' else ch) email
   \<and> (fst (create_secret (''projects/'' @ project_id self) (secret_id_of email) c) = Inl e
        \<and> \<not> is_AlreadyExists_raised e \<and> is_Exception e \<and> str_of e = Inr msg \<longrightarrow>
        fst (store_key_in_secret_manager self email key c) = Inr False
        \<and> calls (snd (store_key_in_secret_manager self email key c)) =
            calls c @ [CreateSecret (''projects/'' @ project_id self) (secret_id_of email)]
        \<and> secrets (snd (store_key_in_secret_manager self email key c)) = secrets c)
   \<and> ((fst (create_secret (''projects/'' @ project_id self) (secret_id_of email) c) = Inr ()
         \<or> (fst (create_secret (''projects/'' @ project_id self) (secret_id_of email) c) = Inl e
              \<and> is_AlreadyExists_raised e))
        \<and> encode key = Inr payload \<longrightarrow>
        calls (snd (store_key_in_secret_manager self email key c)) =
            calls c @ [CreateSecret (''projects/'' @ project_id self) (secret_id_of email),
                       AddSecretVersion
                         (''projects/'' @ project_id self @ ''/secrets/'' @ secret_id_of email)
                         payload]
        \<and> (fst (store_key_in_secret_manager self email key c) = Inr True \<longleftrightarrow>
             fst (add_secret_version
                    (''projects/'' @ project_id self @ ''/secrets/'' @ secret_id_of email)
                    payload
                    (snd (create_secret (''projects/'' @ project_id self) (secret_id_of email) c)))
               = Inr ()))
   \<and> ((fst (create_secret (''projects/'' @ project_id self) (secret_id_of email) c) = Inr ()
         \<or> (fst (create_secret (''projects/'' @ project_id self) (secret_id_of email) c) = Inl e
              \<and> is_AlreadyExists_raised e))
        \<and> encode key = Inl x \<longrightarrow>
        fst (store_key_in_secret_manager self email key c) = Inr False
        \<and> calls (snd (store_key_in_secret_manager self email key c)) =
            calls c @ [CreateSecret (''projects/'' @ project_id self) (secret_id_of email)])
   \<and> (fst (store_key_in_secret_manager self email key c) = Inr True \<longrightarrow>
        (\<exists>bytes. encode key = Inr bytes
           \<and> secrets (snd (store_key_in_secret_manager self email key c))
               (''projects/'' @ project_id self @ ''/secrets/'' @ secret_id_of email)
             = Some ((case secrets c
                        (''projects/'' @ project_id self @ ''/secrets/'' @ secret_id_of email)
                      of None \<Rightarrow> [] | Some vs \<Rightarrow> vs) @ [bytes])))
   \<and> (fst (create_secret (''projects/'' @ project_id self) (secret_id_of email) c) = Inl e
        \<and> \<not> is_Exception e \<longrightarrow>
        fst (store_key_in_secret_manager self email key c) = Inl e)
   \<and> ((\<forall>f. create_secret_fault c
               (''projects/'' @ project_id self @ ''/secrets/'' @ secret_id_of email) = Some f
             \<longrightarrow> is_Exception f \<and> (\<exists>m. str_of f = Inr m))
        \<and> (\<forall>f. add_secret_version_fault c
               (''projects/'' @ project_id self @ ''/secrets/'' @ secret_id_of email) = Some f
             \<longrightarrow> is_Exception f \<and> (\<exists>m. str_of f = Inr m)) \<longrightarrow>
        (\<exists>b. fst (store_key_in_secret_manager self email key c) = Inr b))"
  using store_key_aux [OF refl refl refl, of self email c e msg key payload x]
    secret_id_of_eq [of email]
  by blast

theorem store_key_behaviour_witness:
  "fst (create_secret (''projects/'' @ project_id demo) (secret_id_of ''a@b.c'') sealed_cloud)
     = Inl (ApiError (PermissionDenied ''403''))
   \<and> \<not> is_AlreadyExists_raised (ApiError (PermissionDenied ''403''))
   \<and> is_Exception (ApiError (PermissionDenied ''403''))
   \<and> str_of (ApiError (PermissionDenied ''403'')) = Inr ''403''
   \<and> fst (store_key_in_secret_manager demo ''a@b.c'' key_text sealed_cloud) = Inr False
   \<and> calls (snd (store_key_in_secret_manager demo ''a@b.c'' key_text sealed_cloud)) =
       [CreateSecret ''projects/p'' ''sa-key-a-b-c'']
   \<and> fst (create_secret (''projects/'' @ project_id demo) (secret_id_of ''a@b.c'') stocked_cloud)
     = Inl (ApiError (AlreadyExists ''projects/p/secrets/sa-key-a-b-c''))
   \<and> is_AlreadyExists_raised (ApiError (AlreadyExists ''projects/p/secrets/sa-key-a-b-c''))
   \<and> encode key_text = Inr [75, 69, 89]
   \<and> fst (store_key_in_secret_manager demo ''a@b.c'' key_text stocked_cloud) = Inr True
   \<and> calls (snd (store_key_in_secret_manager demo ''a@b.c'' key_text stocked_cloud)) =
       [CreateSecret ''projects/p'' ''sa-key-a-b-c'',
        AddSecretVersion ''projects/p/secrets/sa-key-a-b-c'' [75, 69, 89]]
   \<and> secrets (snd (store_key_in_secret_manager demo ''a@b.c'' key_text stocked_cloud))
        ''projects/p/secrets/sa-key-a-b-c'' = Some [[79, 76, 68], [75, 69, 89]]
   \<and> fst (create_secret (''projects/'' @ project_id demo) (secret_id_of ''a@b.c'') empty_cloud)
     = Inr ()
   \<and> encode broken_text = Inl (UnicodeEncodeError ''surrogates not allowed'')
   \<and> fst (store_key_in_secret_manager demo ''a@b.c'' broken_text empty_cloud) = Inr False
   \<and> fst (create_secret (''projects/'' @ project_id demo) (secret_id_of ''a@b.c'')
          interrupted_cloud) = Inl KeyboardInterrupt
   \<and> \<not> is_Exception KeyboardInterrupt
   \<and> fst (store_key_in_secret_manager demo ''a@b.c'' key_text interrupted_cloud)
       = Inl KeyboardInterrupt
   \<and> create_secret_fault empty_cloud ''projects/p/secrets/sa-key-a-b-c'' = None
   \<and> add_secret_version_fault empty_cloud ''projects/p/secrets/sa-key-a-b-c'' = None
   \<and> fst (store_key_in_secret_manager demo ''a@b.c'' key_text empty_cloud) = Inr True"
proof -
  note sid = demo_secret_id
  have c1: "fst (create_secret (''projects/'' @ project_id demo) (secret_id_of ''a@b.c'')
      sealed_cloud) = Inl (ApiError (PermissionDenied ''403''))"
    by (simp add: sid create_secret_def sealed_cloud_def Let_def)
  have c2: "fst (create_secret (''projects/'' @ project_id demo) (secret_id_of ''a@b.c'')
      stocked_cloud) = Inl (ApiError (AlreadyExists ''projects/p/secrets/sa-key-a-b-c''))"
    by (simp add: sid create_secret_def stocked_cloud_def empty_cloud_def demo_def Let_def)
  have c3: "fst (create_secret (''projects/'' @ project_id demo) (secret_id_of ''a@b.c'')
      empty_cloud) = Inr ()"
    by (simp add: sid create_secret_def empty_cloud_def demo_def Let_def)
  have t: "fst (store_key_in_secret_manager demo ''a@b.c'' key_text stocked_cloud) = Inr True"
    by (simp add: store_key_in_secret_manager_def add_version_def create_secret_def
          add_secret_version_def request_def sid stocked_cloud_def empty_cloud_def demo_def
          demo_encode Let_def)
  have n: "\<not> is_AlreadyExists_raised (ApiError (PermissionDenied ''403''))
      \<and> is_Exception (ApiError (PermissionDenied ''403''))
      \<and> str_of (ApiError (PermissionDenied ''403'')) = Inr ''403''"
    by simp
  have ae: "is_AlreadyExists_raised (ApiError (AlreadyExists ''projects/p/secrets/sa-key-a-b-c''))"
    by simp
  note t1 = store_key_behaviour
    [of "''a@b.c''" demo sealed_cloud "ApiError (PermissionDenied ''403'')" "''403''" key_text
        "[75, 69, 89]" "UnicodeEncodeError ''surrogates not allowed''"]
  note t2 = store_key_behaviour
    [of "''a@b.c''" demo stocked_cloud
        "ApiError (AlreadyExists ''projects/p/secrets/sa-key-a-b-c'')" "''403''" key_text
        "[75, 69, 89]" "UnicodeEncodeError ''surrogates not allowed''"]
  note t3 = store_key_behaviour
    [of "''a@b.c''" demo empty_cloud "ApiError (PermissionDenied ''403'')" "''403''" broken_text
        "[75, 69, 89]" "UnicodeEncodeError ''surrogates not allowed''"]
  from t1 c1 n have a: "fst (store_key_in_secret_manager demo ''a@b.c'' key_text sealed_cloud)
        = Inr False
      \<and> calls (snd (store_key_in_secret_manager demo ''a@b.c'' key_text sealed_cloud)) =
          calls sealed_cloud @ [CreateSecret (''projects/'' @ project_id demo)
             (secret_id_of ''a@b.c'')]"
    by blast
  from t2 c2 ae demo_encode
  have b: "calls (snd (store_key_in_secret_manager demo ''a@b.c'' key_text stocked_cloud)) =
      calls stocked_cloud @ [CreateSecret (''projects/'' @ project_id demo) (secret_id_of ''a@b.c''),
         AddSecretVersion (''projects/'' @ project_id demo @ ''/secrets/'' @ secret_id_of ''a@b.c'')
           [75, 69, 89]]"
    by blast
  from t2 t obtain bytes where d0: "encode key_text = Inr bytes"
      and d1: "secrets (snd (store_key_in_secret_manager demo ''a@b.c'' key_text stocked_cloud))
          (''projects/'' @ project_id demo @ ''/secrets/'' @ secret_id_of ''a@b.c'')
        = Some ((case secrets stocked_cloud
                   (''projects/'' @ project_id demo @ ''/secrets/'' @ secret_id_of ''a@b.c'')
                 of None \<Rightarrow> [] | Some vs \<Rightarrow> vs) @ [bytes])"
    by blast
  from d0 demo_encode have bytes: "bytes = [75, 69, 89]" by simp
  from t3 c3 demo_encode_broken
  have f: "fst (store_key_in_secret_manager demo ''a@b.c'' broken_text empty_cloud) = Inr False"
    by blast
  have c4: "fst (create_secret (''projects/'' @ project_id demo) (secret_id_of ''a@b.c'')
      interrupted_cloud) = Inl KeyboardInterrupt"
    by (simp add: sid create_secret_def interrupted_cloud_def Let_def)
  have ni: "\<not> is_Exception KeyboardInterrupt" by simp
  note t4 = store_key_behaviour
    [of "''a@b.c''" demo interrupted_cloud KeyboardInterrupt "''403''" key_text
        "[75, 69, 89]" "UnicodeEncodeError ''surrogates not allowed''"]
  from t4 c4 ni
  have g: "fst (store_key_in_secret_manager demo ''a@b.c'' key_text interrupted_cloud)
      = Inl KeyboardInterrupt"
    by blast
  have nf: "create_secret_fault empty_cloud ''projects/p/secrets/sa-key-a-b-c'' = None
      \<and> add_secret_version_fault empty_cloud ''projects/p/secrets/sa-key-a-b-c'' = None"
    by (simp add: empty_cloud_def)
  note t5 = store_key_behaviour
    [of "''a@b.c''" demo empty_cloud KeyboardInterrupt "''403''" key_text
        "[75, 69, 89]" "UnicodeEncodeError ''surrogates not allowed''"]
  have nf': "(\<forall>f. create_secret_fault empty_cloud
               (''projects/'' @ project_id demo @ ''/secrets/'' @ secret_id_of ''a@b.c'') = Some f
             \<longrightarrow> is_Exception f \<and> (\<exists>m. str_of f = Inr m))
        \<and> (\<forall>f. add_secret_version_fault empty_cloud
               (''projects/'' @ project_id demo @ ''/secrets/'' @ secret_id_of ''a@b.c'') = Some f
             \<longrightarrow> is_Exception f \<and> (\<exists>m. str_of f = Inr m))"
    by (simp add: empty_cloud_def)
  from t5 nf' obtain b0 where
    b0: "fst (store_key_in_secret_manager demo ''a@b.c'' key_text empty_cloud) = Inr b0"
    by blast
  from t5 c3 demo_encode b0
  have b0': "b0 = True \<longleftrightarrow>
      fst (add_secret_version
             (''projects/'' @ project_id demo @ ''/secrets/'' @ secret_id_of ''a@b.c'')
             [75, 69, 89]
             (snd (create_secret (''projects/'' @ project_id demo) (secret_id_of ''a@b.c'')
                empty_cloud))) = Inr ()"
    by auto
  have "fst (add_secret_version
             (''projects/'' @ project_id demo @ ''/secrets/'' @ secret_id_of ''a@b.c'')
             [75, 69, 89]
             (snd (create_secret (''projects/'' @ project_id demo) (secret_id_of ''a@b.c'')
                empty_cloud))) = Inr ()"
    by (simp add: sid add_secret_version_def create_secret_def request_def empty_cloud_def
          demo_def Let_def)
  with b0 b0' have h: "fst (store_key_in_secret_manager demo ''a@b.c'' key_text empty_cloud)
      = Inr True"
    by simp
  from a b d1 bytes c1 c2 c3 c4 n ni ae t f g h nf demo_encode demo_encode_broken show ?thesis
    by (simp add: sid demo_def sealed_cloud_def stocked_cloud_def empty_cloud_def)
qed

text \<open>
  C8 as stated has one secret version added for every key and has the function never
  raise. With the key \<open>K\<close> followed by a lone surrogate, the secret is created and the
  function returns false without asking for a version: the secret is left with none.
  With a secret store whose create request is left by \<open>KeyboardInterrupt\<close>, the function
  raises it.
\<close>

theorem store_key_counterexample:
  "encode broken_text = Inl (UnicodeEncodeError ''surrogates not allowed'')
   \<and> fst (store_key_in_secret_manager demo ''a@b.c'' broken_text empty_cloud) = Inr False
   \<and> calls (snd (store_key_in_secret_manager demo ''a@b.c'' broken_text empty_cloud)) =
       [CreateSecret ''projects/p'' ''sa-key-a-b-c'']
   \<and> secrets (snd (store_key_in_secret_manager demo ''a@b.c'' broken_text empty_cloud))
        ''projects/p/secrets/sa-key-a-b-c'' = Some []
   \<and> fst (store_key_in_secret_manager demo ''a@b.c'' key_text interrupted_cloud)
       = Inl KeyboardInterrupt"
  by (simp add: store_key_in_secret_manager_def add_version_def create_secret_def
        store_failed_def request_def demo_secret_id demo_encode_broken interrupted_cloud_def
        empty_cloud_def demo_def Let_def)

text \<open>
  C9. \<open>_rotate_service_account_keys\<close> returns empty rotated and failed lists for every
  facade, and so every report of \<open>ensure_environment\<close> has empty \<open>keys_rotated\<close> and
  \<open>keys_failed\<close>.
\<close>

theorem rotate_is_noop:
  "rotate_service_account_keys self = ([], [])
   \<and> (\<exists>r. fst (ensure_environment self iter now c) = Inr r
          \<and> keys_rotated r = [] \<and> keys_failed r = [])"
  using ensure_environment_returns [of self iter now c]
  by (auto simp: rotate_service_account_keys_def)

text \<open>
  C10. Role membership is read and written in the member form \<open>serviceAccount:{email}\<close>
  only. \<open>_has_role\<close> holds exactly when a binding of the role lists that string.
  The principals found by \<open>_validate_iam_permissions\<close> are exactly the members that
  start with \<open>serviceAccount:\<close>, with that text removed; in a policy without such
  members nobody is found and nobody holds a role. \<open>ensure_role\<close> issues no write
  exactly when a binding of the role lists \<open>serviceAccount:{email}\<close>; otherwise the policy
  it writes lists \<open>serviceAccount:{email}\<close> under the role and has no other new member.
\<close>

theorem service_account_member_form:
  "(has_role e r pol \<longleftrightarrow>
      (\<exists>b\<in>set pol. role b = r \<and> (''serviceAccount:'' @ e) \<in> set (members b)))
   \<and> (x \<in> set (scan_bindings pol []) \<longleftrightarrow>
      (\<exists>b\<in>set pol. \<exists>m\<in>set (members b).
         startswith m ''serviceAccount:'' \<and> x = str_replace m ''serviceAccount:'' ''''))
   \<and> ((\<forall>b\<in>set pol. \<forall>m\<in>set (members b). \<not> startswith m ''serviceAccount:'') \<longrightarrow>
        scan_bindings pol [] = [] \<and> \<not> has_role e r pol)
   \<and> (fst (get_iam_policy (''projects/'' @ project_id self) c) = Inr pol \<longrightarrow>
        ((\<exists>b\<in>set pol. role b = r \<and> (''serviceAccount:'' @ e) \<in> set (members b)) \<longrightarrow>
           calls (snd (ensure_role self e r c)) =
             calls c @ [GetIamPolicy (''projects/'' @ project_id self)])
        \<and> (\<not> (\<exists>b\<in>set pol. role b = r \<and> (''serviceAccount:'' @ e) \<in> set (members b)) \<longrightarrow>
           (\<exists>pol'.
              calls (snd (ensure_role self e r c)) =
                calls c @ [GetIamPolicy (''projects/'' @ project_id self),
                           SetIamPolicy (''projects/'' @ project_id self) pol']
              \<and> (\<exists>b\<in>set pol'. role b = r \<and> (''serviceAccount:'' @ e) \<in> set (members b))
              \<and> (\<forall>b'\<in>set pol'. \<forall>m\<in>set (members b').
                    m = ''serviceAccount:'' @ e \<or> (\<exists>b\<in>set pol. m \<in> set (members b))))))"
proof -
  have p1: "has_role e r pol \<longleftrightarrow>
      (\<exists>b\<in>set pol. role b = r \<and> (''serviceAccount:'' @ e) \<in> set (members b))"
    by (rule has_role_iff)
  have p2: "x \<in> set (scan_bindings pol []) \<longleftrightarrow>
      (\<exists>b\<in>set pol. \<exists>m\<in>set (members b).
         startswith m ''serviceAccount:'' \<and> x = str_replace m ''serviceAccount:'' '''')"
    by (rule scan_bindings_mem)
  have p3: "(\<forall>b\<in>set pol. \<forall>m\<in>set (members b). \<not> startswith m ''serviceAccount:'') \<longrightarrow>
        scan_bindings pol [] = [] \<and> \<not> has_role e r pol"
    using scan_bindings_none [of pol] has_role_none [of pol e r] by blast
  have p4: "fst (get_iam_policy (''projects/'' @ project_id self) c) = Inr pol \<longrightarrow>
        ((\<exists>b\<in>set pol. role b = r \<and> (''serviceAccount:'' @ e) \<in> set (members b)) \<longrightarrow>
           calls (snd (ensure_role self e r c)) =
             calls c @ [GetIamPolicy (''projects/'' @ project_id self)])"
  proof (intro impI)
    assume g: "fst (get_iam_policy (''projects/'' @ project_id self) c) = Inr pol"
      and ex: "\<exists>b\<in>set pol. role b = r \<and> (''serviceAccount:'' @ e) \<in> set (members b)"
    from g have f: "get_iam_policy_fault c (''projects/'' @ project_id self) = None"
      and p: "iam_policies c (''projects/'' @ project_id self) = pol"
      by (simp_all only: get_iam_policy_ok)
    from ex p have "already_assigned r (''serviceAccount:'' @ e)
        (iam_policies c (''projects/'' @ project_id self))"
      by (simp only: already_assigned_iff)
    from ensure_role_satisfied [OF refl refl f this]
    show "calls (snd (ensure_role self e r c)) =
             calls c @ [GetIamPolicy (''projects/'' @ project_id self)]"
      by simp
  qed
  have p5: "fst (get_iam_policy (''projects/'' @ project_id self) c) = Inr pol \<longrightarrow>
        (\<not> (\<exists>b\<in>set pol. role b = r \<and> (''serviceAccount:'' @ e) \<in> set (members b)) \<longrightarrow>
           (\<exists>pol'.
              calls (snd (ensure_role self e r c)) =
                calls c @ [GetIamPolicy (''projects/'' @ project_id self),
                           SetIamPolicy (''projects/'' @ project_id self) pol']
              \<and> (\<exists>b\<in>set pol'. role b = r \<and> (''serviceAccount:'' @ e) \<in> set (members b))
              \<and> (\<forall>b'\<in>set pol'. \<forall>m\<in>set (members b').
                    m = ''serviceAccount:'' @ e \<or> (\<exists>b\<in>set pol. m \<in> set (members b)))))"
    using ensure_role_member_aux [OF refl refl, of c self pol r e]
    by (simp only: get_iam_policy_ok) blast
  from p1 p2 p3 p4 p5 show ?thesis by blast
qed

theorem service_account_member_form_witness:
  "\<not> (\<exists>b\<in>set users_policy. \<exists>m\<in>set (members b). startswith m ''serviceAccount:'')
   \<and> scan_bindings users_policy [] = []
   \<and> \<not> has_role ''dave@example.com'' ''R1'' users_policy
   \<and> fst (get_iam_policy (''projects/'' @ project_id demo) users_cloud) = Inr users_policy
   \<and> \<not> (\<exists>b\<in>set users_policy. role b = ''R1''
          \<and> (''serviceAccount:'' @ ''dave@example.com'') \<in> set (members b))
   \<and> calls (snd (ensure_role demo ''dave@example.com'' ''R1'' users_cloud)) =
       [GetIamPolicy ''projects/p'',
        SetIamPolicy ''projects/p''
          [\<lparr>role = ''R1'', members = [''user:carol'', ''dave@example.com'',
                                       ''serviceAccount:dave@example.com'']\<rparr>]]
   \<and> fst (get_iam_policy (''projects/'' @ project_id demo) scenario_cloud) = Inr scenario_policy
   \<and> (\<exists>b\<in>set scenario_policy. role b = ''R1''
          \<and> (''serviceAccount:'' @ ''svcA'') \<in> set (members b))
   \<and> calls (snd (ensure_role demo ''svcA'' ''R1'' scenario_cloud)) = [GetIamPolicy ''projects/p'']"
proof -
  have h1: "\<forall>b\<in>set users_policy. \<forall>m\<in>set (members b). \<not> startswith m ''serviceAccount:''"
    by (simp add: users_policy_def startswith_def)
  have h2: "\<not> (\<exists>b\<in>set users_policy. role b = ''R1''
          \<and> (''serviceAccount:'' @ ''dave@example.com'') \<in> set (members b))"
    by (simp add: users_policy_def)
  have h3: "\<exists>b\<in>set scenario_policy. role b = ''R1''
          \<and> (''serviceAccount:'' @ ''svcA'') \<in> set (members b)"
    by (simp add: scenario_policy_def)
  have h4: "fst (get_iam_policy (''projects/'' @ project_id demo) scenario_cloud)
              = Inr scenario_policy"
    by (simp add: get_iam_policy_def scenario_cloud_def empty_cloud_def)
  have v: "calls (snd (ensure_role demo ''dave@example.com'' ''R1'' users_cloud)) =
       [GetIamPolicy ''projects/p'',
        SetIamPolicy ''projects/p''
          [\<lparr>role = ''R1'', members = [''user:carol'', ''dave@example.com'',
                                       ''serviceAccount:dave@example.com'']\<rparr>]]"
    by (simp add: ensure_role_def get_iam_policy_def set_iam_policy_def request_def Let_def
          demo_def users_cloud_def empty_cloud_def users_policy_def)
  note t1 = service_account_member_form
    [of "''dave@example.com''" "''R1''" users_policy "''x''" demo users_cloud]
  note t2 = service_account_member_form
    [of "''svcA''" "''R1''" scenario_policy "''x''" demo scenario_cloud]
  from t1 h1 have a: "scan_bindings users_policy [] = []
      \<and> \<not> has_role ''dave@example.com'' ''R1'' users_policy"
    by blast
  from t2 h3 h4 have b: "calls (snd (ensure_role demo ''svcA'' ''R1'' scenario_cloud)) =
      calls scenario_cloud @ [GetIamPolicy (''projects/'' @ project_id demo)]"
    by blast
  from b have b': "calls (snd (ensure_role demo ''svcA'' ''R1'' scenario_cloud)) =
      [GetIamPolicy ''projects/p'']"
    by (simp add: scenario_cloud_def empty_cloud_def demo_def)
  from h1 have h1': "\<not> (\<exists>b\<in>set users_policy. \<exists>m\<in>set (members b).
      startswith m ''serviceAccount:'')"
    by blast
  from a b' h1' h2 h3 h4 v users_get show ?thesis by blast
qed

end
